theory Spec2Isabelle
  imports Main "HOL-Library.Word" "HOL-Library.AList"
begin

section \<open>JavaScript values\<close>

text \<open>
  A JavaScript string is a sequence of 16-bit code units. String literals of the source
  are written \<open>str ''...''\<close>: the ASCII characters of the literal, one code unit each.
\<close>

type_synonym jsstring = "16 word list"

definition str :: "string \<Rightarrow> jsstring" where
  "str s = map of_char s"

text \<open>
  The code observes a number only through \<open>typeof\<close> and through its conversion to a
  string (template literals, \<open>encodeURIComponent\<close>), or passes it on unchanged. A number
  is therefore represented by its \<open>Number::toString\<close> rendering; IEEE arithmetic is not
  modelled.
\<close>

datatype number = Num (Number_toString: jsstring)

datatype jsval =
    JUndefined
  | JNull
  | JBoolean bool
  | JNumber number
  | JString jsstring
  | JArray "jsval list"
  | JObject "(jsstring \<times> jsval) list"

text \<open>The \<open>typeof\<close> operator; its result is one of a fixed set of ASCII names.\<close>

fun typeof :: "jsval \<Rightarrow> string" where
  "typeof JUndefined = ''undefined''"
| "typeof JNull = ''object''"
| "typeof (JBoolean b) = ''boolean''"
| "typeof (JNumber n) = ''number''"
| "typeof (JString s) = ''string''"
| "typeof (JArray xs) = ''object''"
| "typeof (JObject ps) = ''object''"

text \<open>
  Reading property \<open>k\<close> of a value that is neither \<open>null\<close> nor \<open>undefined\<close>: the own
  property of an object, \<open>undefined\<close> when there is none. The properties that the code
  reads (\<open>redirectUrl\<close>, \<open>user_id\<close>, \<open>access_token\<close>, \<open>refresh_token\<close>) exist on no
  primitive and on no array.
\<close>

fun getProperty :: "jsval \<Rightarrow> jsstring \<Rightarrow> jsval" where
  "getProperty (JObject ps) k = (case map_of ps k of None \<Rightarrow> JUndefined | Some v \<Rightarrow> v)"
| "getProperty v k = JUndefined"

text \<open>\<open>String.prototype.startsWith\<close>, \<open>split\<close> on a one-unit separator, and \<open>join\<close>.\<close>

definition startsWith :: "jsstring \<Rightarrow> jsstring \<Rightarrow> bool" where
  "startsWith s p \<longleftrightarrow> take (length p) s = p"

fun split :: "jsstring \<Rightarrow> 16 word \<Rightarrow> jsstring list" where
  "split [] sep = [[]]"
| "split (c # cs) sep =
     (if c = sep then [] # split cs sep
      else case split cs sep of
             [] \<Rightarrow> [[c]]
           | w # ws \<Rightarrow> (c # w) # ws)"

fun join :: "jsstring list \<Rightarrow> jsstring \<Rightarrow> jsstring" where
  "join [] sep = []"
| "join [x] sep = x"
| "join (x # y # ys) sep = x @ sep @ join (y # ys) sep"

section \<open>Errors\<close>

text \<open>
  Modelled from the spec: the class \<open>MongoDBRealmError\<close> (./MongoDBRealmError) is the
  structured API error, which carries the HTTP method, the URL, the status code, the
  status text and the server-reported payload, in the order of the constructor call in
  \<open>fetchAndParse\<close>.

  JavaScript can throw any value, and a promise can reject with any value. \<open>Error msg\<close>
  is an error object whose message is the string \<open>msg\<close>: \<open>new Error(msg)\<close> and the
  platform's own exceptions (\<open>TypeError\<close>, \<open>URIError\<close>, \<open>SyntaxError\<close>, an abort).
  \<open>Thrown v\<close> is any other thrown value \<open>v\<close>, for instance \<open>undefined\<close>, a string, or
  an object with or without a \<open>message\<close> property. Only the first constructor is an
  instance of \<open>MongoDBRealmError\<close>.
\<close>

datatype exn =
    MongoDBRealmError jsstring jsstring number jsstring jsval
  | Error (message: jsstring)
  | Thrown jsval


text \<open>
  A thrown \<open>TypeError\<close>, raised by the engine on reading a property of \<open>null\<close> or
  \<open>undefined\<close> and on converting to a string an object that has no usable \<open>toString\<close>.
  Its message is the engine's; no claim depends on it.
\<close>

definition TypeError :: exn where
  "TypeError = Error (str ''Cannot read properties of null or undefined'')"

definition isNullish :: "jsval \<Rightarrow> bool" where
  "isNullish v \<longleftrightarrow> v = JNull \<or> v = JUndefined"

text \<open>
  The conversion of a value to a string, as a template literal does it; \<open>None\<close> is a
  thrown \<open>TypeError\<close>. An array is converted by \<open>join\<close>, which writes nothing for
  \<open>null\<close> and \<open>undefined\<close>. An object is converted by the \<open>toString\<close> it inherits,
  unless a property of its own hides that method: a property of these data values is
  never a function, and the \<open>valueOf\<close> that is tried next does not yield a primitive.
\<close>

fun ToString_value :: "jsval \<Rightarrow> jsstring option" where
  "ToString_value JUndefined = Some (str ''undefined'')"
| "ToString_value JNull = Some (str ''null'')"
| "ToString_value (JBoolean b) = Some (if b then str ''true'' else str ''false'')"
| "ToString_value (JNumber n) = Some (Number_toString n)"
| "ToString_value (JString s) = Some s"
| "ToString_value (JArray xs) =
     map_option (\<lambda>parts. join parts (str '',''))
       (those (map (\<lambda>x. if isNullish x then Some [] else ToString_value x) xs))"
| "ToString_value (JObject ps) =
     (if map_of ps (str ''toString'') = None then Some (str ''[object Object]'') else None)"

section \<open>The URI codec of the platform\<close>

text \<open>
  \<open>encodeURIComponent\<close> and \<open>decodeURIComponent\<close> are built-in functions; they follow the
  abstract operations \<open>Encode\<close> and \<open>Decode\<close> of ECMA-262 (section 19.2.6). Octets and
  code points are natural numbers. \<open>None\<close> is a thrown \<open>URIError\<close>.
\<close>

definition uriUnescaped :: "16 word \<Rightarrow> bool" where
  "uriUnescaped c \<longleftrightarrow>
     (let u = unat c in
        (0x41 \<le> u \<and> u \<le> 0x5A) \<or> (0x61 \<le> u \<and> u \<le> 0x7A) \<or> (0x30 \<le> u \<and> u \<le> 0x39) \<or>
        u \<in> {0x2D, 0x5F, 0x2E, 0x21, 0x7E, 0x2A, 0x27, 0x28, 0x29})"

definition isLeadingSurrogate :: "16 word \<Rightarrow> bool" where
  "isLeadingSurrogate c \<longleftrightarrow> 0xD800 \<le> unat c \<and> unat c \<le> 0xDBFF"

definition isTrailingSurrogate :: "16 word \<Rightarrow> bool" where
  "isTrailingSurrogate c \<longleftrightarrow> 0xDC00 \<le> unat c \<and> unat c \<le> 0xDFFF"

definition UTF16SurrogatePairToCodePoint :: "16 word \<Rightarrow> 16 word \<Rightarrow> nat" where
  "UTF16SurrogatePairToCodePoint lead trail =
     (unat lead - 0xD800) * 0x400 + (unat trail - 0xDC00) + 0x10000"

definition UTF16EncodeCodePoint :: "nat \<Rightarrow> jsstring" where
  "UTF16EncodeCodePoint cp =
     (if cp \<le> 0xFFFF then [of_nat cp]
      else [of_nat ((cp - 0x10000) div 0x400 + 0xD800),
            of_nat ((cp - 0x10000) mod 0x400 + 0xDC00)])"

definition utf8_encode :: "nat \<Rightarrow> nat list" where
  "utf8_encode cp =
     (if cp < 0x80 then [cp]
      else if cp < 0x800 then [0xC0 + cp div 0x40, 0x80 + cp mod 0x40]
      else if cp < 0x10000 then
        [0xE0 + cp div 0x1000, 0x80 + cp div 0x40 mod 0x40, 0x80 + cp mod 0x40]
      else
        [0xF0 + cp div 0x40000, 0x80 + cp div 0x1000 mod 0x40,
         0x80 + cp div 0x40 mod 0x40, 0x80 + cp mod 0x40])"

definition isContinuation :: "nat \<Rightarrow> bool" where
  "isContinuation b \<longleftrightarrow> 0x80 \<le> b \<and> b \<le> 0xBF"

text \<open>
  The code point of a well-formed UTF-8 sequence of two to four octets: continuation
  octets in range, shortest form, no surrogate, at most \<open>0x10FFFF\<close>.
\<close>

fun utf8_decode :: "nat list \<Rightarrow> nat option" where
  "utf8_decode [b1, b2] =
     (let v = (b1 - 0xC0) * 0x40 + (b2 - 0x80)
      in if isContinuation b2 \<and> 0x80 \<le> v then Some v else None)"
| "utf8_decode [b1, b2, b3] =
     (let v = (b1 - 0xE0) * 0x1000 + (b2 - 0x80) * 0x40 + (b3 - 0x80)
      in if isContinuation b2 \<and> isContinuation b3 \<and> 0x800 \<le> v \<and> \<not> (0xD800 \<le> v \<and> v \<le> 0xDFFF)
         then Some v else None)"
| "utf8_decode [b1, b2, b3, b4] =
     (let v = (b1 - 0xF0) * 0x40000 + (b2 - 0x80) * 0x1000 + (b3 - 0x80) * 0x40 + (b4 - 0x80)
      in if isContinuation b2 \<and> isContinuation b3 \<and> isContinuation b4 \<and>
            0x10000 \<le> v \<and> v \<le> 0x10FFFF
         then Some v else None)"
| "utf8_decode bs = None"

definition hexDigit :: "nat \<Rightarrow> 16 word" where
  "hexDigit d = (if d < 10 then of_nat (0x30 + d) else of_nat (0x41 + (d - 10)))"

definition percentEscape :: "nat \<Rightarrow> jsstring" where
  "percentEscape b = [0x25, hexDigit (b div 16), hexDigit (b mod 16)]"

definition hexValue :: "16 word \<Rightarrow> nat option" where
  "hexValue c =
     (let u = unat c in
        if 0x30 \<le> u \<and> u \<le> 0x39 then Some (u - 0x30)
        else if 0x41 \<le> u \<and> u \<le> 0x46 then Some (u - 0x41 + 10)
        else if 0x61 \<le> u \<and> u \<le> 0x66 then Some (u - 0x61 + 10)
        else None)"

definition ParseHexOctet :: "16 word \<Rightarrow> 16 word \<Rightarrow> nat option" where
  "ParseHexOctet h1 h2 =
     (case (hexValue h1, hexValue h2) of
        (Some a, Some b) \<Rightarrow> Some (16 * a + b)
      | _ \<Rightarrow> None)"

fun Encode :: "jsstring \<Rightarrow> jsstring option" where
  "Encode [] = Some []"
| "Encode (c # cs) =
     (if uriUnescaped c then map_option ((#) c) (Encode cs)
      else if isLeadingSurrogate c then
        (case cs of
           [] \<Rightarrow> None
         | d # ds \<Rightarrow>
             if isTrailingSurrogate d
             then map_option
                    ((@) (concat (map percentEscape
                            (utf8_encode (UTF16SurrogatePairToCodePoint c d)))))
                    (Encode ds)
             else None)
      else if isTrailingSurrogate c then None
      else map_option ((@) (concat (map percentEscape (utf8_encode (unat c))))) (Encode cs))"

definition leadingOnes :: "nat \<Rightarrow> nat" where
  "leadingOnes b =
     (if b < 0x80 then 0 else if b < 0xC0 then 1 else if b < 0xE0 then 2
      else if b < 0xF0 then 3 else if b < 0xF8 then 4 else 5)"

text \<open>
  The inner loop of \<open>Decode\<close>: the octets of \<open>j\<close> further escapes \<open>%XX\<close>, which take
  up the next \<open>3 * j\<close> code units.
\<close>

fun continuationOctets :: "nat \<Rightarrow> jsstring \<Rightarrow> nat list option" where
  "continuationOctets 0 s = Some []"
| "continuationOctets (Suc j) (p # h1 # h2 # rest) =
     (if p \<noteq> 0x25 then None
      else case ParseHexOctet h1 h2 of
             None \<Rightarrow> None
           | Some b \<Rightarrow> map_option ((#) b) (continuationOctets j rest))"
| "continuationOctets (Suc j) s = None"

function Decode :: "jsstring \<Rightarrow> jsstring option" where
  "Decode [] = Some []"
| "Decode (c # cs) =
     (if c \<noteq> 0x25 then map_option ((#) c) (Decode cs)
      else case cs of
             h1 # h2 # rest \<Rightarrow>
               (case ParseHexOctet h1 h2 of
                  None \<Rightarrow> None
                | Some b \<Rightarrow>
                    if leadingOnes b = 0 then map_option ((#) (of_nat b)) (Decode rest)
                    else if leadingOnes b = 1 \<or> 4 < leadingOnes b then None
                    else (case continuationOctets (leadingOnes b - 1) rest of
                            None \<Rightarrow> None
                          | Some bs \<Rightarrow>
                              (case utf8_decode (b # bs) of
                                 None \<Rightarrow> None
                               | Some v \<Rightarrow>
                                   map_option ((@) (UTF16EncodeCodePoint v))
                                     (Decode (drop (3 * (leadingOnes b - 1)) rest)))))
           | _ \<Rightarrow> None)"
  by pat_completeness auto
termination
  by (relation "measure length") auto

text \<open>
  A thrown \<open>URIError\<close>. Its message is the engine's; no claim depends on it.
\<close>

definition URIError :: exn where
  "URIError = Error (str ''URI malformed'')"

text \<open>
  The scalar values of a query parameter, \<open>string | number | boolean | undefined\<close>, and
  their conversion to a string.
\<close>

datatype scalar = SString jsstring | SNumber number | SBoolean bool | SUndefined

fun ToString :: "scalar \<Rightarrow> jsstring" where
  "ToString (SString s) = s"
| "ToString (SNumber n) = Number_toString n"
| "ToString (SBoolean b) = (if b then str ''true'' else str ''false'')"
| "ToString SUndefined = str ''undefined''"

definition encodeURIComponent :: "scalar \<Rightarrow> exn + jsstring" where
  "encodeURIComponent v = (case Encode (ToString v) of None \<Rightarrow> Inl URIError | Some s \<Rightarrow> Inr s)"

definition decodeURIComponent :: "scalar \<Rightarrow> exn + jsstring" where
  "decodeURIComponent v = (case Decode (ToString v) of None \<Rightarrow> Inl URIError | Some s \<Rightarrow> Inr s)"

text \<open>
  \<open>Array.prototype.map\<close> with a callback that may throw: the first exception ends it.
\<close>

fun mapM :: "('a \<Rightarrow> exn + 'b) \<Rightarrow> 'a list \<Rightarrow> exn + 'b list" where
  "mapM f [] = Inr []"
| "mapM f (x # xs) =
     (case f x of
        Inl e \<Rightarrow> Inl e
      | Inr y \<Rightarrow> (case mapM f xs of Inl e \<Rightarrow> Inl e | Inr ys \<Rightarrow> Inr (y # ys)))"

text \<open>
  \<open>Object.fromEntries\<close>: the entries are written in order, a later entry for a key
  replacing the value of an earlier one. An object is the list of its entries.
\<close>

definition fromEntries :: "(jsstring \<times> 'v) list \<Rightarrow> (jsstring \<times> 'v) list" where
  "fromEntries es = fold (\<lambda>(k, v) obj. AList.update k v obj) es []"

section \<open>utils/string.ts\<close>

text \<open>
  \<open>params\<close> is the list \<open>Object.entries(params)\<close>. The callbacks of the three \<open>map\<close>
  calls are applied entry by entry; only \<open>encodeURIComponent\<close> can throw.
\<close>

definition encodeQueryString :: "(jsstring \<times> scalar) list \<Rightarrow> exn + jsstring" where
  "encodeQueryString params =
     (let filteredParams = filter (\<lambda>(k, v). v \<noteq> SUndefined) params
      in case mapM (\<lambda>(k, v). case encodeURIComponent v of
                                 Inl e \<Rightarrow> Inl e
                               | Inr v' \<Rightarrow> Inr (k, v')) filteredParams of
           Inl e \<Rightarrow> Inl e
         | Inr kvs \<Rightarrow> Inr (join (map (\<lambda>(k, v). k @ str ''='' @ v) kvs) (str ''&'')))"

text \<open>
  The array pattern \<open>[k, v]\<close> binds the first two elements of \<open>kvp.split("=")\<close>, and
  \<open>undefined\<close> where there is none; the key of an entry is converted to a property key.
\<close>

fun destructure2 :: "jsstring list \<Rightarrow> scalar \<times> scalar" where
  "destructure2 [] = (SUndefined, SUndefined)"
| "destructure2 [k] = (SString k, SUndefined)"
| "destructure2 (k # v # rest) = (SString k, SString v)"

definition decodeQueryString :: "jsstring \<Rightarrow> exn + (jsstring \<times> jsstring) list" where
  "decodeQueryString s =
     (case mapM (\<lambda>kvp. case destructure2 (split kvp 0x3D) of
                          (k, v) \<Rightarrow> (case decodeURIComponent v of
                                       Inl e \<Rightarrow> Inl e
                                     | Inr v' \<Rightarrow> Inr (ToString k, v')))
                (split s 0x26) of
        Inl e \<Rightarrow> Inl e
      | Inr entries \<Rightarrow> Inr (fromEntries entries))"

definition encodeUrl :: "jsstring \<Rightarrow> (jsstring \<times> scalar) list \<Rightarrow> exn + jsstring" where
  "encodeUrl url query =
     (case encodeQueryString query of
        Inl e \<Rightarrow> Inl e
      | Inr queryString \<Rightarrow>
          Inr (if length queryString > 0 then url @ str ''?'' @ queryString else url))"

text \<open>
  \<open>String.prototype.isWellFormed\<close>: no unpaired surrogate.
\<close>

fun isWellFormed :: "jsstring \<Rightarrow> bool" where
  "isWellFormed [] = True"
| "isWellFormed (c # cs) =
     (if isLeadingSurrogate c then
        (case cs of [] \<Rightarrow> False | d # ds \<Rightarrow> isTrailingSurrogate d \<and> isWellFormed ds)
      else if isTrailingSurrogate c then False
      else isWellFormed cs)"

section \<open>NetworkTransport.ts\<close>

subsection \<open>Requests, responses and the platform\<close>

type_synonym headers = "(jsstring \<times> jsstring) list"

text \<open>The field \<open>method\<close> of a request is written \<open>method'\<close>.\<close>

record request =
  method' :: jsstring
  url :: jsstring
  body :: jsval
  timeoutMs :: "number option"
  headers :: "headers option"

text \<open>
  The response of the underlying call. \<open>res_headers\<close> lists the entries of its \<open>Headers\<close>
  object, under the names that the object stores (lower case); \<open>json_of\<close> and \<open>text_of\<close>
  are what \<open>response.json()\<close> and \<open>response.text()\<close> settle with.
\<close>

record response =
  ok :: bool
  status :: number
  statusText :: jsstring
  res_headers :: headers
  json_of :: "exn + jsval"
  text_of :: "exn + jsstring"

definition headers_get :: "headers \<Rightarrow> jsstring \<Rightarrow> jsstring option" where
  "headers_get h name = map_of h name"

text \<open>
  Timers and abort controllers are state of the platform. Controllers and timeouts are
  numbered in the order of their creation. A pending timeout is its handle, its delay and
  the controller that its callback aborts.
\<close>

record world =
  controllers :: nat
  timeouts :: nat
  pending :: "(nat \<times> number \<times> nat) list"

record init =
  init_method :: jsstring
  init_headers :: headers
  init_body :: "jsstring option"
  init_signal :: "nat option"

text \<open>
  \<open>DefaultNetworkTransport.fetch\<close> is installed by the embedder. While the call is
  awaited the event loop runs, so the call returns a new world with its outcome.
  \<open>JSON.stringify\<close> yields \<open>undefined\<close> (\<open>None\<close>) for some values.
\<close>

record platform =
  fetch_impl :: "jsstring \<Rightarrow> init \<Rightarrow> world \<Rightarrow> (exn + response) \<times> world"
  JSON_stringify :: "jsval \<Rightarrow> jsstring option"

definition DEFAULT_HEADERS :: headers where
  "DEFAULT_HEADERS =
     [(str ''Accept'', str ''application/json''), (str ''Content-Type'', str ''application/json'')]"

subsection \<open>createTimeoutSignal and fetch\<close>

text \<open>
  \<open>cancelTimeout\<close> is \<open>Some timeout\<close> for the closure that calls \<open>clearTimeout(timeout)\<close>,
  and \<open>None\<close> for the closure that does nothing.
\<close>

record timeout_signal =
  signal :: "nat option"
  cancelTimeout :: "nat option"

definition setTimeout :: "nat \<Rightarrow> number \<Rightarrow> world \<Rightarrow> nat \<times> world" where
  "setTimeout controller ms w =
     (timeouts w, w\<lparr>timeouts := Suc (timeouts w),
                     pending := pending w @ [(timeouts w, ms, controller)]\<rparr>)"

definition clearTimeout :: "nat \<Rightarrow> world \<Rightarrow> world" where
  "clearTimeout timeout w = w\<lparr>pending := filter (\<lambda>(t, ms, c). t \<noteq> timeout) (pending w)\<rparr>"

definition newAbortController :: "world \<Rightarrow> nat \<times> world" where
  "newAbortController w = (controllers w, w\<lparr>controllers := Suc (controllers w)\<rparr>)"

definition createTimeoutSignal :: "number option \<Rightarrow> world \<Rightarrow> timeout_signal \<times> world" where
  "createTimeoutSignal ms_opt w =
     (case ms_opt of
        Some ms \<Rightarrow>
          (case newAbortController w of
             (controller, w1) \<Rightarrow>
               (case setTimeout controller ms w1 of
                  (timeout, w2) \<Rightarrow>
                    (\<lparr>signal = Some controller, cancelTimeout = Some timeout\<rparr>, w2)))
      | None \<Rightarrow> (\<lparr>signal = None, cancelTimeout = None\<rparr>, w))"

definition run_cancelTimeout :: "nat option \<Rightarrow> world \<Rightarrow> world" where
  "run_cancelTimeout c w = (case c of None \<Rightarrow> w | Some timeout \<Rightarrow> clearTimeout timeout w)"

definition fetch_init :: "platform \<Rightarrow> request \<Rightarrow> nat option \<Rightarrow> init" where
  "fetch_init P request sig =
     \<lparr>init_method = method' request,
      init_headers = (case headers request of None \<Rightarrow> DEFAULT_HEADERS | Some h \<Rightarrow> h),
      init_body = (case body request of JString s \<Rightarrow> Some s | b \<Rightarrow> JSON_stringify P b),
      init_signal = sig\<rparr>"

text \<open>The private method \<open>fetch\<close>: \<open>try { return await ... } finally { cancelTimeout() }\<close>.\<close>

definition fetch :: "platform \<Rightarrow> request \<Rightarrow> world \<Rightarrow> (exn + response) \<times> world" where
  "fetch P request w =
     (case createTimeoutSignal (timeoutMs request) w of
        (ts, w1) \<Rightarrow>
          (case fetch_impl P (url request) (fetch_init P request (signal ts)) w1 of
             (result, w2) \<Rightarrow> (result, run_cancelTimeout (cancelTimeout ts) w2)))"

subsection \<open>fetchAndParse\<close>

text \<open>The body of the \<open>try\<close> block, given what \<open>this.fetch(request)\<close> settled with.\<close>

definition classify :: "request \<Rightarrow> exn + response \<Rightarrow> exn + jsval" where
  "classify request fetched =
     (case fetched of
        Inl err \<Rightarrow> Inl err
      | Inr response \<Rightarrow>
          (let contentType = headers_get (res_headers response) (str ''content-type'')
           in if ok response then
                (case contentType of
                   None \<Rightarrow> Inr JNull
                 | Some ct \<Rightarrow>
                     if startsWith ct (str ''application/json'') then json_of response
                     else Inl (Error (str ''Expected an empty or a JSON response'')))
              else if (case contentType of
                         None \<Rightarrow> False
                       | Some ct \<Rightarrow> ct \<noteq> [] \<and> startsWith ct (str ''application/json''))
              then
                (case json_of response of
                   Inl err \<Rightarrow> Inl err
                 | Inr payload \<Rightarrow>
                     Inl (MongoDBRealmError (method' request) (url request)
                            (status response) (statusText response) payload))
              else
                Inl (Error (str ''Unexpected status code ('' @ Number_toString (status response)
                            @ str '' '' @ statusText response @ str '')''))))"

text \<open>
  The \<open>catch\<close> block: the exception that it throws, given the exception \<open>err\<close> that it
  caught. Reading \<open>err.message\<close> throws a \<open>TypeError\<close> when \<open>err\<close> is \<open>null\<close> or
  \<open>undefined\<close>; the template literal converts the message to a string.
\<close>

fun rethrow :: "request \<Rightarrow> exn \<Rightarrow> exn" where
  "rethrow request (MongoDBRealmError m u s t p) = MongoDBRealmError m u s t p"
| "rethrow request (Error msg) =
     Error (str ''Request failed ('' @ method' request @ str '' '' @ url request @ str ''): '' @ msg)"
| "rethrow request (Thrown v) =
     (if isNullish v then TypeError
      else case ToString_value (getProperty v (str ''message'')) of
             None \<Rightarrow> TypeError
           | Some msg \<Rightarrow>
               Error (str ''Request failed ('' @ method' request @ str '' '' @ url request
                        @ str ''): '' @ msg))"

definition fetchAndParse :: "platform \<Rightarrow> request \<Rightarrow> world \<Rightarrow> (exn + jsval) \<times> world" where
  "fetchAndParse P request w =
     (case fetch P request w of
        (fetched, w') \<Rightarrow>
          (case classify request fetched of
             Inl err \<Rightarrow> (Inl (rethrow request err), w')
           | Inr v \<Rightarrow> (Inr v, w')))"

subsection \<open>fetchWithCallbacks\<close>

record raw_response =
  statusCode :: number
  raw_headers :: headers
  raw_body :: jsstring

text \<open>
  A callback of the handler returns, or throws an exception (\<open>Some\<close>). The result of
  \<open>fetchWithCallbacks\<close> is the sequence of the calls that it makes to the handler. Nothing
  follows the call of \<open>onError\<close>; what \<open>onError\<close> does is not observed.
\<close>

record handler =
  onSuccess :: "raw_response \<Rightarrow> exn option"
  onError :: "exn \<Rightarrow> exn option"

datatype invocation = OnSuccess raw_response | OnError exn

definition fetchWithCallbacks ::
  "platform \<Rightarrow> request \<Rightarrow> handler \<Rightarrow> world \<Rightarrow> invocation list \<times> world" where
  "fetchWithCallbacks P request h w =
     (case fetch P request w of
        (Inl e, w') \<Rightarrow> ([OnError e], w')
      | (Inr response, w') \<Rightarrow>
          (case text_of response of
             Inl e \<Rightarrow> ([OnError e], w')
           | Inr decodedBody \<Rightarrow>
               (let r = \<lparr>statusCode = status response,
                         raw_headers = fold (\<lambda>(key, value) responseHeaders.
                                               AList.update key value responseHeaders)
                                         (res_headers response) [],
                         raw_body = decodedBody\<rparr>
                in case onSuccess h r of
                     None \<Rightarrow> ([OnSuccess r], w')
                   | Some e \<Rightarrow> ([OnSuccess r, OnError e], w'))))"

section \<open>Authenticator.ts\<close>

record credentials =
  providerType :: jsstring
  providerName :: jsstring
  payload :: "(jsstring \<times> jsval) list"

datatype user = User jsstring

record fetcher_request = request +
  tokenType :: jsstring
  user :: "user option"

record AuthResponse =
  userId :: jsstring
  accessToken :: jsstring
  refreshToken :: jsval

text \<open>
  The collaborators of the authenticator are parameters. \<open>getAppUrl\<close> settles with the
  app URL object, represented by the function from a provider name to
  \<open>authProvider(name).login().url\<close>. \<open>initiate\<close> and \<open>decodeAuthInfo\<close> are the OAuth2 helper.
\<close>

record fetcher =
  getAppUrl :: "exn + (jsstring \<Rightarrow> jsstring)"
  fetchJSON :: "fetcher_request \<Rightarrow> exn + jsval"

record oauth2helper =
  initiate :: "credentials \<Rightarrow> exn + jsval"
  decodeAuthInfo :: "jsval \<Rightarrow> exn + AuthResponse"

text \<open>The calls that \<open>authenticate\<close> makes to its collaborators, in order.\<close>

datatype call =
    Initiate credentials
  | DecodeAuthInfo jsval
  | GetAppUrl
  | FetchJSON fetcher_request

text \<open>
  Lines 105 to 117: the object pattern with the default for \<open>refresh_token\<close>, and the two
  checks.
\<close>

definition spread :: "jsval \<Rightarrow> exn + AuthResponse" where
  "spread response =
     (if isNullish response then Inl TypeError
      else
        (let user_id = getProperty response (str ''user_id'');
             access_token = getProperty response (str ''access_token'');
             refresh_token = (case getProperty response (str ''refresh_token'') of
                                JUndefined \<Rightarrow> JNull
                              | v \<Rightarrow> v)
         in case user_id of
              JString uid \<Rightarrow>
                (case access_token of
                   JString tok \<Rightarrow>
                     Inr \<lparr>userId = uid, accessToken = tok, refreshToken = refresh_token\<rparr>
                 | _ \<Rightarrow> Inl (Error (str ''Expected an access token in the response'')))
            | _ \<Rightarrow> Inl (Error (str ''Expected a user id in the response''))))"

definition loginRequest :: "jsstring \<Rightarrow> credentials \<Rightarrow> user option \<Rightarrow> fetcher_request" where
  "loginRequest u credentials linkWithUser =
     \<lparr>method' = str ''POST'', url = u, body = JObject (payload credentials),
      timeoutMs = None, headers = None,
      tokenType = (if linkWithUser \<noteq> None then str ''access'' else str ''none''),
      user = linkWithUser\<rparr>"

definition authenticate ::
  "fetcher \<Rightarrow> oauth2helper \<Rightarrow> credentials \<Rightarrow> user option \<Rightarrow> (exn + AuthResponse) \<times> call list" where
  "authenticate F oauth2 credentials linkWithUser =
     (if startsWith (providerType credentials) (str ''oauth2'') \<and>
         typeof (getProperty (JObject (payload credentials)) (str ''redirectUrl'')) = ''string''
      then
        (case initiate oauth2 credentials of
           Inl e \<Rightarrow> (Inl e, [Initiate credentials])
         | Inr result \<Rightarrow>
             if isNullish result then (Inl TypeError, [Initiate credentials])
             else (decodeAuthInfo oauth2 (getProperty result (str ''userAuth'')),
                   [Initiate credentials, DecodeAuthInfo (getProperty result (str ''userAuth''))]))
      else
        (case getAppUrl F of
           Inl e \<Rightarrow> (Inl e, [GetAppUrl])
         | Inr appUrl \<Rightarrow>
             (case encodeUrl (appUrl (providerName credentials))
                     [(str ''link'', if linkWithUser \<noteq> None then SBoolean True else SUndefined)] of
                Inl e \<Rightarrow> (Inl e, [GetAppUrl])
              | Inr u \<Rightarrow>
                  (case fetchJSON F (loginRequest u credentials linkWithUser) of
                     Inl e \<Rightarrow> (Inl e, [GetAppUrl, FetchJSON (loginRequest u credentials linkWithUser)])
                   | Inr response \<Rightarrow>
                       (spread response,
                        [GetAppUrl, FetchJSON (loginRequest u credentials linkWithUser)])))))"


text \<open>The code points that have a UTF-8 encoding: the Unicode scalar values.\<close>

definition validCodePoint :: "nat \<Rightarrow> bool" where
  "validCodePoint cp \<longleftrightarrow> cp \<le> 0x10FFFF \<and> \<not> (0xD800 \<le> cp \<and> cp \<le> 0xDFFF)"

section \<open>Concrete inputs\<close>

text \<open>
  A platform whose underlying call settles with a given outcome and leaves the timers
  alone, a request with a given timeout, and two responses.
\<close>

definition example_world :: world where
  "example_world = \<lparr>controllers = 0, timeouts = 0, pending = []\<rparr>"

definition example_platform :: "exn + response \<Rightarrow> platform" where
  "example_platform outcome =
     \<lparr>fetch_impl = (\<lambda>u i w. (outcome, w)), JSON_stringify = (\<lambda>v. None)\<rparr>"

definition example_request :: "number option \<Rightarrow> request" where
  "example_request t =
     \<lparr>method' = str ''GET'', url = str ''https://x/y'', body = JUndefined, timeoutMs = t,
      headers = None\<rparr>"

definition response_401 :: response where
  "response_401 =
     \<lparr>ok = False, status = Num (str ''401''), statusText = str ''Unauthorized'',
      res_headers = [(str ''content-type'', str ''application/json'')],
      json_of = Inr (JObject [(str ''error'', JString (str ''invalid session''))]),
      text_of = Inr (str ''{}'')\<rparr>"

definition response_204 :: response where
  "response_204 =
     \<lparr>ok = True, status = Num (str ''204''), statusText = str ''No Content'',
      res_headers = [(str ''x-a'', str ''1''), (str ''x-b'', str ''2'')],
      json_of = Inl (Error (str ''Unexpected end of JSON input'')),
      text_of = Inr []\<rparr>"

definition response_400_malformed :: response where
  "response_400_malformed =
     \<lparr>ok = False, status = Num (str ''400''), statusText = str ''Bad Request'',
      res_headers = [(str ''content-type'', str ''application/json'')],
      json_of = Inl (Error (str ''Unexpected end of JSON input'')),
      text_of = Inr (str ''{'')\<rparr>"

definition quiet_handler :: handler where
  "quiet_handler = \<lparr>onSuccess = (\<lambda>r. None), onError = (\<lambda>e. None)\<rparr>"

definition throwing_handler :: handler where
  "throwing_handler = \<lparr>onSuccess = (\<lambda>r. Some (Error (str ''boom''))), onError = (\<lambda>e. None)\<rparr>"

text \<open>
  A fetcher whose login endpoint answers every request with a given value, an OAuth2
  helper, and two credentials.
\<close>

definition example_fetcher :: "jsval \<Rightarrow> fetcher" where
  "example_fetcher response =
     \<lparr>getAppUrl = Inr (\<lambda>name. str ''https://x/'' @ name @ str ''/login''),
      fetchJSON = (\<lambda>q. Inr response)\<rparr>"

definition example_oauth2 :: oauth2helper where
  "example_oauth2 =
     \<lparr>initiate = (\<lambda>c. Inr (JObject [(str ''userAuth'', JString (str ''info''))])),
      decodeAuthInfo =
        (\<lambda>v. Inr \<lparr>userId = str ''u1'', accessToken = str ''tok'', refreshToken = JNull\<rparr>)\<rparr>"

definition userpass_credentials :: credentials where
  "userpass_credentials =
     \<lparr>providerType = str ''local-userpass'', providerName = str ''local-userpass'',
      payload = [(str ''username'', JString (str ''a'')), (str ''password'', JString (str ''b''))]\<rparr>"

definition oauth2_credentials :: credentials where
  "oauth2_credentials =
     \<lparr>providerType = str ''oauth2-google'', providerName = str ''oauth2-google'',
      payload = [(str ''redirectUrl'', JString (str ''https://x/cb''))]\<rparr>"

definition example_params :: "(jsstring \<times> scalar) list" where
  "example_params =
     [(str ''a'', SString (str ''x y'')), (str ''n'', SNumber (Num (str ''1.5''))),
      (str ''c'', SBoolean True)]"

section \<open>Properties of the URI codec\<close>

lemma radix64_regroup3: "a * 4096 + b * 64 + r = (a * 64 + b) * 64 + (r::nat)"
  by simp

lemma radix64_regroup4: "a * 262144 + b * 4096 + c * 64 + r = (a * 4096 + b * 64 + c) * 64 + (r::nat)"
  by simp

lemma radix64_digits3: "(cp div 4096) * 4096 + (cp div 64 mod 64) * 64 + cp mod 64 = (cp::nat)"
proof -
  define q where "q = cp div 64"
  have a: "cp div 4096 = q div 64" by (simp add: q_def div_mult2_eq)
  have b: "q div 64 * 64 + q mod 64 = q" by simp
  have c: "q * 64 + cp mod 64 = cp" by (simp add: q_def)
  have "(q div 64) * 4096 + (q mod 64) * 64 + cp mod 64 = (q div 64 * 64 + q mod 64) * 64 + cp mod 64"
    by (rule radix64_regroup3)
  also have "\<dots> = cp" by (simp only: b c)
  finally show ?thesis by (simp only: a q_def)
qed

lemma radix64_digits4:
  "(cp div 262144) * 262144 + (cp div 4096 mod 64) * 4096 + (cp div 64 mod 64) * 64 + cp mod 64 = (cp::nat)"
proof -
  define q where "q = cp div 64"
  have a: "cp div 262144 = q div 4096" "cp div 4096 = q div 64" by (simp_all add: q_def div_mult2_eq)
  have b: "(q div 4096) * 4096 + (q div 64 mod 64) * 64 + q mod 64 = q" by (rule radix64_digits3)
  have c: "q * 64 + cp mod 64 = cp" by (simp add: q_def)
  have "(q div 4096) * 262144 + (q div 64 mod 64) * 4096 + (q mod 64) * 64 + cp mod 64
      = ((q div 4096) * 4096 + (q div 64 mod 64) * 64 + q mod 64) * 64 + cp mod 64"
    by (rule radix64_regroup4)
  also have "\<dots> = cp" by (simp only: b c)
  finally show ?thesis by (simp only: a q_def)
qed

lemma unat_of_nat16: "n < 65536 \<Longrightarrow> unat (of_nat n :: 16 word) = n"
  by (simp add: unat_of_nat)

lemma unat_hexDigit: "d < 16 \<Longrightarrow> unat (hexDigit d) = (if d < 10 then 48 + d else 55 + d)"
proof -
  assume d: "d < 16"
  have a: "unat (of_nat (0x30 + d) :: 16 word) = 0x30 + d"
    using d by (intro unat_of_nat16) simp
  have b: "unat (of_nat (0x41 + (d - 10)) :: 16 word) = 0x41 + (d - 10)"
    using d by (intro unat_of_nat16) simp
  show ?thesis
    unfolding hexDigit_def using a b by (simp only: split: if_splits) simp
qed

lemma hexValue_hexDigit: "d < 16 \<Longrightarrow> hexValue (hexDigit d) = Some d"
  by (simp add: hexValue_def unat_hexDigit Let_def)

lemma ParseHexOctet_hexDigit:
  "b < 256 \<Longrightarrow> ParseHexOctet (hexDigit (b div 16)) (hexDigit (b mod 16)) = Some b"
proof -
  assume "b < 256"
  then have "b div 16 < 16" by simp
  then show ?thesis by (simp add: ParseHexOctet_def hexValue_hexDigit)
qed

lemma hexDigit_plain: "d < 16 \<Longrightarrow> hexDigit d \<noteq> 0x26 \<and> hexDigit d \<noteq> 0x3D"
proof -
  assume d: "d < 16"
  have "unat (hexDigit d) \<noteq> unat (0x26 :: 16 word)" "unat (hexDigit d) \<noteq> unat (0x3D :: 16 word)"
    using d by (simp_all add: unat_hexDigit)
  then show ?thesis by metis
qed

lemma uriUnescaped_plain: "uriUnescaped c \<Longrightarrow> c \<noteq> 0x25 \<and> c \<noteq> 0x26 \<and> c \<noteq> 0x3D"
  by (auto simp: uriUnescaped_def Let_def)

lemma Decode_escape1:
  "b < 0x80 \<Longrightarrow> Decode (percentEscape b @ rest) = map_option ((#) (of_nat b)) (Decode rest)"
  by (simp add: percentEscape_def ParseHexOctet_hexDigit leadingOnes_def)

lemma continuationOctets_escapes:
  "\<forall>b \<in> set bs. b < 256 \<Longrightarrow>
   continuationOctets (length bs) (concat (map percentEscape bs) @ rest) = Some bs"
  by (induction bs) (simp_all add: percentEscape_def ParseHexOctet_hexDigit)

lemma length_escapes: "length (concat (map percentEscape bs)) = 3 * length bs"
  by (induction bs) (simp_all add: percentEscape_def)

lemma Decode_escapes:
  assumes "\<forall>b \<in> set (b1 # bs). b < 256" "leadingOnes b1 = Suc (length bs)" "bs \<noteq> []" "length bs < 4"
  shows "Decode (concat (map percentEscape (b1 # bs)) @ rest) =
     (case utf8_decode (b1 # bs) of None \<Rightarrow> None
      | Some v \<Rightarrow> map_option ((@) (UTF16EncodeCodePoint v)) (Decode rest))"
proof -
  define tl where "tl = concat (map percentEscape bs) @ rest"
  have 1: "concat (map percentEscape (b1 # bs)) @ rest =
     0x25 # hexDigit (b1 div 16) # hexDigit (b1 mod 16) # tl"
    by (simp add: percentEscape_def tl_def)
  have 2: "ParseHexOctet (hexDigit (b1 div 16)) (hexDigit (b1 mod 16)) = Some b1"
    using assms(1) by (simp add: ParseHexOctet_hexDigit)
  have 3: "continuationOctets (length bs) tl = Some bs"
    using assms(1) by (simp add: continuationOctets_escapes tl_def)
  have 4: "drop (3 * length bs) tl = rest"
    by (simp add: length_escapes tl_def)
  have 5: "drop (3 * (leadingOnes b1 - 1)) tl = rest"
    using 4 by (simp add: assms(2))
  show ?thesis
    unfolding 1 using assms(3,4) by (simp add: 2 3 4 5 assms(2) cong: option.case_cong)
qed

lemma utf8_roundtrip2:
  assumes "0x80 \<le> cp" "cp < 0x800"
  shows "utf8_decode [0xC0 + cp div 0x40, 0x80 + cp mod 0x40] = Some cp"
  using assms by (simp add: isContinuation_def Let_def)

lemma utf8_roundtrip3:
  assumes "0x800 \<le> cp" "cp < 0x10000" "\<not> (0xD800 \<le> cp \<and> cp \<le> 0xDFFF)"
  shows "utf8_decode [0xE0 + cp div 0x1000, 0x80 + cp div 0x40 mod 0x40, 0x80 + cp mod 0x40] = Some cp"
proof -
  define b1 b2 b3 where "b1 = 0xE0 + cp div 0x1000" and "b2 = 0x80 + cp div 0x40 mod 0x40"
    and "b3 = 0x80 + cp mod 0x40"
  have v: "(b1 - 0xE0) * 0x1000 + (b2 - 0x80) * 0x40 + (b3 - 0x80) = cp"
    using radix64_digits3 [of cp] by (simp add: b1_def b2_def b3_def)
  have c: "isContinuation b2" "isContinuation b3"
    by (simp_all add: isContinuation_def b2_def b3_def)
  show ?thesis
    unfolding b1_def [symmetric] b2_def [symmetric] b3_def [symmetric]
    using assms by (simp add: v c)
qed

lemma utf8_roundtrip4:
  assumes "0x10000 \<le> cp" "cp \<le> 0x10FFFF"
  shows "utf8_decode [0xF0 + cp div 0x40000, 0x80 + cp div 0x1000 mod 0x40,
           0x80 + cp div 0x40 mod 0x40, 0x80 + cp mod 0x40] = Some cp"
proof -
  define b1 b2 b3 b4 where "b1 = 0xF0 + cp div 0x40000" and "b2 = 0x80 + cp div 0x1000 mod 0x40"
    and "b3 = 0x80 + cp div 0x40 mod 0x40" and "b4 = 0x80 + cp mod 0x40"
  have v: "(b1 - 0xF0) * 0x40000 + (b2 - 0x80) * 0x1000 + (b3 - 0x80) * 0x40 + (b4 - 0x80) = cp"
    using radix64_digits4 [of cp] by (simp add: b1_def b2_def b3_def b4_def)
  have c: "isContinuation b2" "isContinuation b3" "isContinuation b4"
    by (simp_all add: isContinuation_def b2_def b3_def b4_def)
  show ?thesis
    unfolding b1_def [symmetric] b2_def [symmetric] b3_def [symmetric] b4_def [symmetric]
    using assms by (simp add: v c)
qed

lemma utf8_encode_octets: "cp \<le> 0x10FFFF \<Longrightarrow> \<forall>b \<in> set (utf8_encode cp). b < 256"
proof -
  assume a: "cp \<le> 0x10FFFF"
  have "cp < 0x800 \<Longrightarrow> cp div 0x40 < 0x20" by arith
  moreover have "cp < 0x10000 \<Longrightarrow> cp div 0x1000 < 0x10" by arith
  moreover have "cp div 0x40000 < 0x8" using a by arith
  ultimately show ?thesis by (auto simp: utf8_encode_def)
qed

lemma Decode_code_point:
  assumes "validCodePoint cp"
  shows "Decode (concat (map percentEscape (utf8_encode cp)) @ rest) =
         map_option ((@) (UTF16EncodeCodePoint cp)) (Decode rest)"
proof -
  have le: "cp \<le> 0x10FFFF" and ns: "\<not> (0xD800 \<le> cp \<and> cp \<le> 0xDFFF)"
    using assms by (simp_all add: validCodePoint_def)
  note oct = utf8_encode_octets [OF le]
  consider (a) "cp < 0x80" | (b) "0x80 \<le> cp" "cp < 0x800" | (c) "0x800 \<le> cp" "cp < 0x10000"
    | (d) "0x10000 \<le> cp" by linarith
  then show ?thesis
  proof cases
    case a
    then show ?thesis
      using Decode_escape1 [of cp rest]
      by (cases "Decode rest") (simp_all add: utf8_encode_def UTF16EncodeCodePoint_def)
  next
    case b
    then have e: "utf8_encode cp = [0xC0 + cp div 0x40, 0x80 + cp mod 0x40]"
      by (simp add: utf8_encode_def)
    have "cp div 0x40 < 0x20" using b by arith
    then have l: "leadingOnes (0xC0 + cp div 0x40) = Suc (length [0x80 + cp mod 0x40])"
      by (simp add: leadingOnes_def)
    have u: "UTF16EncodeCodePoint cp = [of_nat cp]"
      using b by (simp add: UTF16EncodeCodePoint_def)
    show ?thesis
      unfolding e using oct [unfolded e] l Decode_escapes [of "0xC0 + cp div 0x40" "[0x80 + cp mod 0x40]" rest]
        utf8_roundtrip2 [OF b]
      by (simp only: list.simps option.simps list.size) simp
  next
    case c
    then have e: "utf8_encode cp = [0xE0 + cp div 0x1000, 0x80 + cp div 0x40 mod 0x40, 0x80 + cp mod 0x40]"
      by (simp add: utf8_encode_def)
    have "cp div 0x1000 < 0x10" using c by arith
    then have l: "leadingOnes (0xE0 + cp div 0x1000) = Suc (length [0x80 + cp div 0x40 mod 0x40, 0x80 + cp mod 0x40])"
      by (simp add: leadingOnes_def)
    show ?thesis
      unfolding e
      using oct [unfolded e] l utf8_roundtrip3 [OF c ns]
        Decode_escapes [of "0xE0 + cp div 0x1000" "[0x80 + cp div 0x40 mod 0x40, 0x80 + cp mod 0x40]" rest]
      by simp
  next
    case d
    then have e: "utf8_encode cp = [0xF0 + cp div 0x40000, 0x80 + cp div 0x1000 mod 0x40,
           0x80 + cp div 0x40 mod 0x40, 0x80 + cp mod 0x40]"
      by (simp add: utf8_encode_def)
    have "cp div 0x40000 < 0x8" using le by arith
    then have l: "leadingOnes (0xF0 + cp div 0x40000) = Suc (length [0x80 + cp div 0x1000 mod 0x40,
           0x80 + cp div 0x40 mod 0x40, 0x80 + cp mod 0x40])"
      by (simp add: leadingOnes_def)
    show ?thesis
      unfolding e
      using oct [unfolded e] l utf8_roundtrip4 [OF d le]
        Decode_escapes [of "0xF0 + cp div 0x40000" "[0x80 + cp div 0x1000 mod 0x40,
           0x80 + cp div 0x40 mod 0x40, 0x80 + cp mod 0x40]" rest]
      by simp
  qed
qed

lemma UTF16_single:
  "\<not> isLeadingSurrogate c \<Longrightarrow> \<not> isTrailingSurrogate c \<Longrightarrow>
   validCodePoint (unat c) \<and> UTF16EncodeCodePoint (unat c) = [c]"
proof -
  assume a: "\<not> isLeadingSurrogate c" "\<not> isTrailingSurrogate c"
  have "unat c < 2 ^ 16" using unsigned_less [of c, where ?'a = nat] by simp
  then have "unat c < 65536" by simp
  then show ?thesis
    using a by (auto simp: validCodePoint_def UTF16EncodeCodePoint_def isLeadingSurrogate_def
        isTrailingSurrogate_def)
qed

lemma UTF16_pair:
  assumes "isLeadingSurrogate c" "isTrailingSurrogate d"
  shows "validCodePoint (UTF16SurrogatePairToCodePoint c d) \<and>
         UTF16EncodeCodePoint (UTF16SurrogatePairToCodePoint c d) = [c, d]"
proof -
  define x y where "x = unat c - 0xD800" and "y = unat d - 0xDC00"
  have x: "x < 0x400" "unat c = x + 0xD800" and y: "y < 0x400" "unat d = y + 0xDC00"
    using assms by (auto simp: x_def y_def isLeadingSurrogate_def isTrailingSurrogate_def)
  have cp: "UTF16SurrogatePairToCodePoint c d = x * 0x400 + y + 0x10000"
    by (simp add: UTF16SurrogatePairToCodePoint_def x_def y_def)
  have dv: "(x * 0x400 + y) div 0x400 = x" "(x * 0x400 + y) mod 0x400 = y"
    using y(1) by simp_all
  have "x * 0x400 + y + 0x10000 \<le> 0x10FFFF" using x(1) y(1) by simp
  moreover have "of_nat (x + 0xD800) = c" "of_nat (y + 0xDC00) = d"
  proof -
    have "of_nat (unat c) = c" "of_nat (unat d) = d" by simp_all
    then show "of_nat (x + 0xD800) = c" "of_nat (y + 0xDC00) = d"
      by (simp_all only: x(2) y(2))
  qed
  ultimately show ?thesis
    unfolding cp validCodePoint_def UTF16EncodeCodePoint_def
    using dv by (simp del: of_nat_add of_nat_numeral)
qed

lemma uriUnescaped_not_surrogate:
  "uriUnescaped c \<Longrightarrow> \<not> isLeadingSurrogate c \<and> \<not> isTrailingSurrogate c"
  by (auto simp: uriUnescaped_def isLeadingSurrogate_def isTrailingSurrogate_def Let_def)

lemma Decode_Encode: "Encode s = Some e \<Longrightarrow> Decode e = Some s"
proof (induction s arbitrary: e rule: Encode.induct)
  case 1
  then show ?case by simp
next
  case (2 c cs)
  show ?case
  proof (cases "uriUnescaped c")
    case True
    with "2.prems" obtain e' where e': "Encode cs = Some e'" "e = c # e'"
      by auto
    from True have "c \<noteq> 0x25" by (simp add: uriUnescaped_plain)
    with "2.IH"(1) [OF True e'(1)] e'(2) show ?thesis by simp
  next
    case False
    note nu = this
    show ?thesis
    proof (cases "isLeadingSurrogate c")
      case True
      with nu "2.prems" obtain d ds e' where
        d: "cs = d # ds" "isTrailingSurrogate d" "Encode ds = Some e'"
          "e = concat (map percentEscape (utf8_encode (UTF16SurrogatePairToCodePoint c d))) @ e'"
        by (auto split: list.splits if_splits)
      from "2.IH"(2) [OF nu True d(1,2,3)] have "Decode e' = Some ds" .
      with UTF16_pair [OF True d(2)] Decode_code_point [of "UTF16SurrogatePairToCodePoint c d" e']
      show ?thesis by (simp add: d(1,4))
    next
      case False
      with nu "2.prems" obtain e' where
        e': "\<not> isTrailingSurrogate c" "Encode cs = Some e'"
          "e = concat (map percentEscape (utf8_encode (unat c))) @ e'"
        by (auto split: if_splits)
      from "2.IH"(3) [OF nu False e'(1,2)] have "Decode e' = Some cs" .
      with UTF16_single [OF False e'(1)] Decode_code_point [of "unat c" e']
      show ?thesis by (simp add: e'(3))
    qed
  qed
qed

lemma percentEscape_plain: "b < 256 \<Longrightarrow> 0x26 \<notin> set (percentEscape b) \<and> 0x3D \<notin> set (percentEscape b)"
proof -
  assume "b < 256"
  then have "b div 16 < 16" "b mod 16 < 16" by simp_all
  then show ?thesis
    using hexDigit_plain [of "b div 16"] hexDigit_plain [of "b mod 16"]
    by (auto simp: percentEscape_def)
qed

lemma escapes_plain:
  "cp \<le> 0x10FFFF \<Longrightarrow> 0x26 \<notin> set (concat (map percentEscape (utf8_encode cp))) \<and>
     0x3D \<notin> set (concat (map percentEscape (utf8_encode cp)))"
  using utf8_encode_octets [of cp] percentEscape_plain by auto

lemma Encode_plain: "Encode s = Some e \<Longrightarrow> 0x26 \<notin> set e \<and> 0x3D \<notin> set e"
proof (induction s arbitrary: e rule: Encode.induct)
  case 1
  then show ?case by simp
next
  case (2 c cs)
  show ?case
  proof (cases "uriUnescaped c")
    case True
    with "2.prems" obtain e' where e': "Encode cs = Some e'" "e = c # e'"
      by auto
    with "2.IH"(1) [OF True e'(1)] uriUnescaped_plain [OF True] show ?thesis by auto
  next
    case False
    note nu = this
    show ?thesis
    proof (cases "isLeadingSurrogate c")
      case True
      with nu "2.prems" obtain d ds e' where
        d: "cs = d # ds" "isTrailingSurrogate d" "Encode ds = Some e'"
          "e = concat (map percentEscape (utf8_encode (UTF16SurrogatePairToCodePoint c d))) @ e'"
        by (auto split: list.splits if_splits)
      from UTF16_pair [OF True d(2)] have "UTF16SurrogatePairToCodePoint c d \<le> 0x10FFFF"
        by (simp add: validCodePoint_def)
      from escapes_plain [OF this] "2.IH"(2) [OF nu True d(1,2,3)]
      show ?thesis by (simp add: d(4))
    next
      case False
      with nu "2.prems" obtain e' where
        e': "\<not> isTrailingSurrogate c" "Encode cs = Some e'"
          "e = concat (map percentEscape (utf8_encode (unat c))) @ e'"
        by (auto split: if_splits)
      from UTF16_single [OF False e'(1)] have "unat c \<le> 0x10FFFF"
        by (simp add: validCodePoint_def)
      from escapes_plain [OF this] "2.IH"(3) [OF nu False e'(1,2)]
      show ?thesis by (simp add: e'(3))
    qed
  qed
qed

lemma Encode_isWellFormed: "isWellFormed s \<Longrightarrow> \<exists>e. Encode s = Some e"
proof (induction s rule: Encode.induct)
  case 1
  then show ?case by simp
next
  case (2 c cs)
  show ?case
  proof (cases "uriUnescaped c")
    case True
    with "2.prems" uriUnescaped_not_surrogate [OF True] have "isWellFormed cs" by simp
    from "2.IH"(1) [OF True this] True show ?thesis by auto
  next
    case False
    note nu = this
    show ?thesis
    proof (cases "isLeadingSurrogate c")
      case True
      with "2.prems" obtain d ds where d: "cs = d # ds" "isTrailingSurrogate d" "isWellFormed ds"
        by (auto split: list.splits)
      from "2.IH"(2) [OF nu True d] nu True d(1,2) show ?thesis by auto
    next
      case False
      with "2.prems" have t: "\<not> isTrailingSurrogate c" "isWellFormed cs"
        by (auto split: if_splits)
      from "2.IH"(3) [OF nu False t] nu False t(1) show ?thesis by auto
    qed
  qed
qed

section \<open>Properties of the list and object primitives\<close>

lemma split_nonempty: "split s sep \<noteq> []"
  by (induction s) (auto split: list.splits)

lemma split_single: "sep \<notin> set x \<Longrightarrow> split x sep = [x]"
  by (induction x) auto

lemma split_append: "sep \<notin> set x \<Longrightarrow> split (x @ sep # rest) sep = x # split rest sep"
  by (induction x) auto

lemma split_join:
  "xs \<noteq> [] \<Longrightarrow> \<forall>x \<in> set xs. sep \<notin> set x \<Longrightarrow> split (join xs [sep]) sep = xs"
proof (induction xs "[sep]" rule: join.induct)
  case 1
  then show ?case by simp
next
  case (2 x)
  then show ?case by (simp add: split_single)
next
  case (3 x y ys)
  then show ?case by (simp add: split_append)
qed

lemma fold_update_distinct:
  "distinct (map fst (acc @ es)) \<Longrightarrow>
   fold (\<lambda>(k, v) obj. AList.update k v obj) es acc = acc @ es"
proof (induction es arbitrary: acc)
  case Nil
  then show ?case by simp
next
  case (Cons e es)
  obtain k v where e: "e = (k, v)" by (cases e)
  from Cons.prems have "k \<notin> fst ` set acc" by (auto simp: e)
  then have u: "AList.update k v acc = acc @ [(k, v)]"
    by (induction acc) auto
  from Cons.prems have "distinct (map fst ((acc @ [(k, v)]) @ es))" by (simp add: e)
  from Cons.IH [OF this] show ?case by (simp add: e u)
qed

lemma fromEntries_distinct: "distinct (map fst es) \<Longrightarrow> fromEntries es = es"
  using fold_update_distinct [of "[]" es] by (simp add: fromEntries_def)

lemma map_of_fold_update:
  "map_of (fold (\<lambda>(k, v) obj. AList.update k v obj) es acc) = map_of acc ++ map_of (rev es)"
proof (induction es arbitrary: acc)
  case Nil
  then show ?case by simp
next
  case (Cons e es)
  obtain k v where e: "e = (k, v)" by (cases e)
  have "map_of (AList.update k v acc) ++ map_of (rev es) = map_of acc ++ map_of (rev es @ [(k, v)])"
    by (rule ext) (simp add: update_conv' map_add_def split: option.splits)
  then show ?case by (simp add: Cons.IH e)
qed

lemma map_of_fromEntries: "map_of (fromEntries es) = map_of (rev es)"
  by (simp add: fromEntries_def map_of_fold_update)

lemma mapM_Inr: "(\<And>x. x \<in> set xs \<Longrightarrow> f x = Inr (g x)) \<Longrightarrow> mapM f xs = Inr (map g xs)"
  by (induction xs) simp_all

lemma mapM_InrD: "mapM f xs = Inr ys \<Longrightarrow> map f xs = map Inr ys"
  by (induction xs arbitrary: ys) (auto split: sum.splits)

lemma mapM_map: "mapM f (map g xs) = mapM (f \<circ> g) xs"
  by (induction xs) (simp_all cong: sum.case_cong)

lemma str_amp: "str ''&'' = [0x26]"
  by (simp add: str_def)

lemma str_eq: "str ''='' = [0x3D]"
  by (simp add: str_def)

lemma split_key_value:
  "0x3D \<notin> set k \<Longrightarrow> 0x3D \<notin> set e \<Longrightarrow> destructure2 (split (k @ str ''='' @ e) 0x3D) = (SString k, SString e)"
  by (simp add: str_eq split_append split_single)

lemma hd_split: "hd (split s sep) = takeWhile (\<lambda>c. c \<noteq> sep) s"
  using split_nonempty by (induction s) (auto split: list.splits)

lemma destructure2_key: "xs \<noteq> [] \<Longrightarrow> ToString (fst (destructure2 xs)) = hd xs"
  by (cases xs rule: destructure2.cases) simp_all

lemma Decode_undefined: "Decode (str ''undefined'') = Some (str ''undefined'')"
  by (simp add: str_def)

lemma entry_without_equals:
  assumes "0x3D \<notin> set part"
  shows "(case destructure2 (split part 0x3D) of
            (k, v) \<Rightarrow> (case decodeURIComponent v of
                         Inl e \<Rightarrow> Inl e
                       | Inr v' \<Rightarrow> Inr (ToString k, v'))) = Inr (part, str ''undefined'')"
  using assms by (simp add: split_single decodeURIComponent_def Decode_undefined)

lemma entry_key:
  assumes "(case destructure2 (split kvp 0x3D) of
            (k, v) \<Rightarrow> (case decodeURIComponent v of
                         Inl e \<Rightarrow> Inl e
                       | Inr v' \<Rightarrow> Inr (ToString k, v'))) = Inr y"
  shows "fst y = takeWhile (\<lambda>c. c \<noteq> 0x3D) kvp"
proof -
  have "ToString (fst (destructure2 (split kvp 0x3D))) = takeWhile (\<lambda>c. c \<noteq> 0x3D) kvp"
    by (simp add: destructure2_key split_nonempty hd_split)
  with assms show ?thesis
    by (auto split: prod.splits sum.splits)
qed

section \<open>Properties of the transport and of the authenticator\<close>

lemma startsWith_nonempty: "startsWith ct (str ''application/json'') \<Longrightarrow> ct \<noteq> []"
  by (auto simp: startsWith_def str_def)

lemma encodeUrl_link:
  "encodeUrl u [(str ''link'', SBoolean True)] = Inr (u @ str ''?link=true'')"
  "encodeUrl u [(str ''link'', SUndefined)] = Inr u"
  by (simp_all add: encodeUrl_def encodeQueryString_def encodeURIComponent_def str_def
      uriUnescaped_def)

lemma typeof_string: "typeof v = ''string'' \<longleftrightarrow> (\<exists>s. v = JString s)"
  by (cases v) simp_all

lemma redirectUrl_string:
  "typeof (getProperty (JObject ps) k) = ''string'' \<longleftrightarrow> (\<exists>s. map_of ps k = Some (JString s))"
  by (auto simp: typeof_string split: option.splits)

lemma authenticate_oauth2:
  assumes "startsWith (providerType c) (str ''oauth2'')"
    and "map_of (payload c) (str ''redirectUrl'') = Some (JString s)"
  shows "authenticate F oa c l =
     (case initiate oa c of
           Inl e \<Rightarrow> (Inl e, [Initiate c])
         | Inr result \<Rightarrow>
             if isNullish result then (Inl TypeError, [Initiate c])
             else (decodeAuthInfo oa (getProperty result (str ''userAuth'')),
                   [Initiate c, DecodeAuthInfo (getProperty result (str ''userAuth''))]))"
  using assms by (simp add: authenticate_def)

lemma authenticate_direct:
  assumes "\<not> (startsWith (providerType c) (str ''oauth2'') \<and>
            (\<exists>s. map_of (payload c) (str ''redirectUrl'') = Some (JString s)))"
  shows "authenticate F oa c l =
     (case getAppUrl F of
           Inl e \<Rightarrow> (Inl e, [GetAppUrl])
         | Inr appUrl \<Rightarrow>
            (let q = loginRequest (if l \<noteq> None then appUrl (providerName c) @ str ''?link=true''
                                   else appUrl (providerName c)) c l
             in (case fetchJSON F q of Inl e \<Rightarrow> Inl e | Inr response \<Rightarrow> spread response,
                 [GetAppUrl, FetchJSON q])))"
proof -
  from assms have "\<not> (startsWith (providerType c) (str ''oauth2'') \<and>
         typeof (getProperty (JObject (payload c)) (str ''redirectUrl'')) = ''string'')"
    by (simp add: redirectUrl_string del: getProperty.simps)
  then show ?thesis
    by (auto simp: authenticate_def encodeUrl_link Let_def split: sum.splits)
qed

lemma authenticate_posted:
  assumes "snd (authenticate F oa c l) = [GetAppUrl, FetchJSON q]"
  shows "fst (authenticate F oa c l) =
     (case fetchJSON F q of Inl e \<Rightarrow> Inl e | Inr response \<Rightarrow> spread response)"
proof (cases "startsWith (providerType c) (str ''oauth2'') \<and>
            (\<exists>s. map_of (payload c) (str ''redirectUrl'') = Some (JString s))")
  case True
  then obtain s where s: "map_of (payload c) (str ''redirectUrl'') = Some (JString s)" by blast
  from assms show ?thesis
    unfolding authenticate_oauth2 [of c s F oa l, OF conjunct1 [OF True] s]
    by (simp split: sum.splits if_splits)
next
  case False
  from assms show ?thesis
    unfolding authenticate_direct [OF False]
    by (auto simp: Let_def split: sum.splits)
qed

section \<open>The claims\<close>

subsection \<open>Authenticator: choice of the strategy\<close>

text \<open>
  Claim C1. A credential whose provider type starts with \<open>oauth2\<close> and whose payload has
  a \<open>redirectUrl\<close> of string type makes \<open>authenticate\<close> call the OAuth2 helper and
  nothing else: the first call is \<open>initiate\<close>, every other call is \<open>decodeAuthInfo\<close>,
  no POST is issued, and the outcome is the helper's. Every other credential takes the
  direct path: the app URL is resolved first, and once it is known exactly one POST is
  issued, whose answer decides the outcome; the OAuth2 helper is not called.
\<close>

theorem authenticate_selects_strategy:
  "(startsWith (providerType c) (str ''oauth2'') \<and>
      (\<exists>s. map_of (payload c) (str ''redirectUrl'') = Some (JString s)) \<longrightarrow>
        hd (snd (authenticate F oa c l)) = Initiate c \<and>
        set (snd (authenticate F oa c l)) \<subseteq> insert (Initiate c) (range DecodeAuthInfo) \<and>
        fst (authenticate F oa c l) =
          (case initiate oa c of
             Inl e \<Rightarrow> Inl e
           | Inr result \<Rightarrow>
               if isNullish result then Inl TypeError
               else decodeAuthInfo oa (getProperty result (str ''userAuth'')))) \<and>
   (\<not> (startsWith (providerType c) (str ''oauth2'') \<and>
       (\<exists>s. map_of (payload c) (str ''redirectUrl'') = Some (JString s))) \<longrightarrow>
        (case getAppUrl F of
           Inl e \<Rightarrow> authenticate F oa c l = (Inl e, [GetAppUrl])
         | Inr appUrl \<Rightarrow>
             (\<exists>q. snd (authenticate F oa c l) = [GetAppUrl, FetchJSON q] \<and>
                  method' q = str ''POST'' \<and>
                  fst (authenticate F oa c l) =
                    (case fetchJSON F q of Inl e \<Rightarrow> Inl e | Inr response \<Rightarrow> spread response))))"
proof (intro conjI impI)
  assume a: "startsWith (providerType c) (str ''oauth2'') \<and>
      (\<exists>s. map_of (payload c) (str ''redirectUrl'') = Some (JString s))"
  then obtain s where s: "map_of (payload c) (str ''redirectUrl'') = Some (JString s)" by blast
  note eq = authenticate_oauth2 [of c s F oa l, OF conjunct1 [OF a] s]
  show "hd (snd (authenticate F oa c l)) = Initiate c"
    unfolding eq by (simp split: sum.splits)
  show "set (snd (authenticate F oa c l)) \<subseteq> insert (Initiate c) (range DecodeAuthInfo)"
    unfolding eq by (simp split: sum.splits)
  show "fst (authenticate F oa c l) =
          (case initiate oa c of
             Inl e \<Rightarrow> Inl e
           | Inr result \<Rightarrow>
               if isNullish result then Inl TypeError
               else decodeAuthInfo oa (getProperty result (str ''userAuth'')))"
    unfolding eq by (simp split: sum.splits)
next
  assume a: "\<not> (startsWith (providerType c) (str ''oauth2'') \<and>
       (\<exists>s. map_of (payload c) (str ''redirectUrl'') = Some (JString s)))"
  show "case getAppUrl F of
           Inl e \<Rightarrow> authenticate F oa c l = (Inl e, [GetAppUrl])
         | Inr appUrl \<Rightarrow>
             (\<exists>q. snd (authenticate F oa c l) = [GetAppUrl, FetchJSON q] \<and>
                  method' q = str ''POST'' \<and>
                  fst (authenticate F oa c l) =
                    (case fetchJSON F q of Inl e \<Rightarrow> Inl e | Inr response \<Rightarrow> spread response))"
    unfolding authenticate_direct [OF a]
    by (simp add: Let_def loginRequest_def split: sum.splits)
qed

theorem authenticate_selects_strategy_witness:
  "(startsWith (providerType oauth2_credentials) (str ''oauth2'') \<and>
    map_of (payload oauth2_credentials) (str ''redirectUrl'') = Some (JString (str ''https://x/cb''))) \<and>
   snd (authenticate (example_fetcher JNull) example_oauth2 oauth2_credentials None) =
     [Initiate oauth2_credentials, DecodeAuthInfo (JString (str ''info''))] \<and>
   \<not> startsWith (providerType userpass_credentials) (str ''oauth2'') \<and>
   snd (authenticate (example_fetcher JNull) example_oauth2 userpass_credentials None) =
     [GetAppUrl,
      FetchJSON (loginRequest (str ''https://x/local-userpass/login'') userpass_credentials None)]"
proof -
  have h1: "startsWith (providerType oauth2_credentials) (str ''oauth2'') \<and>
    map_of (payload oauth2_credentials) (str ''redirectUrl'') = Some (JString (str ''https://x/cb''))"
    by (simp add: oauth2_credentials_def startsWith_def str_def)
  have h2: "\<not> startsWith (providerType userpass_credentials) (str ''oauth2'')"
    by (simp add: userpass_credentials_def startsWith_def str_def)
  have c1: "hd (snd (authenticate (example_fetcher JNull) example_oauth2 oauth2_credentials None))
              = Initiate oauth2_credentials"
    using authenticate_selects_strategy [of oauth2_credentials "example_fetcher JNull"
        example_oauth2 None] h1 by blast
  have c2: "\<exists>q. snd (authenticate (example_fetcher JNull) example_oauth2 userpass_credentials None)
              = [GetAppUrl, FetchJSON q]"
    using authenticate_selects_strategy [of userpass_credentials "example_fetcher JNull"
        example_oauth2 None] h2 by (auto simp: example_fetcher_def)
  have e1: "snd (authenticate (example_fetcher JNull) example_oauth2 oauth2_credentials None) =
     [Initiate oauth2_credentials, DecodeAuthInfo (JString (str ''info''))]"
    using c1 h1 by (simp add: authenticate_oauth2 [of _ "str ''https://x/cb''"]
        example_oauth2_def isNullish_def str_def)
  have e2: "snd (authenticate (example_fetcher JNull) example_oauth2 userpass_credentials None) =
     [GetAppUrl,
      FetchJSON (loginRequest (str ''https://x/local-userpass/login'') userpass_credentials None)]"
    using c2 h2 by (simp add: authenticate_direct example_fetcher_def Let_def)
      (simp add: userpass_credentials_def str_def)
  show ?thesis using h1 h2 e1 e2 by blast
qed

subsection \<open>Authenticator: validation of the login response\<close>

text \<open>
  Claim C2, amended. When the POST that \<open>authenticate\<close> issued is answered with a decoded
  response: if \<open>user_id\<close> and \<open>access_token\<close> are strings, the result is the session with
  exactly these two strings (either may be empty), whose refresh token is \<open>null\<close> when
  \<open>refresh_token\<close> is absent and the given string when it is a string; if \<open>user_id\<close> or
  \<open>access_token\<close> is not a string, \<open>authenticate\<close> rejects and returns no session, with
  the message \<open>Expected a user id in the response\<close> (response neither \<open>null\<close> nor
  \<open>undefined\<close>, \<open>user_id\<close> not a string) or \<open>Expected an access token in the response\<close>
  (\<open>user_id\<close> a string, \<open>access_token\<close> not), and with a \<open>TypeError\<close> when the response
  is \<open>null\<close> or \<open>undefined\<close>.
\<close>

theorem authenticate_validates_response:
  assumes "snd (authenticate F oa c l) = [GetAppUrl, FetchJSON q]"
    and "fetchJSON F q = Inr response"
  shows "(\<forall>s t. getProperty response (str ''user_id'') = JString s \<and>
                getProperty response (str ''access_token'') = JString t \<longrightarrow>
            (\<exists>r. fst (authenticate F oa c l) = Inr \<lparr>userId = s, accessToken = t, refreshToken = r\<rparr> \<and>
                 (getProperty response (str ''refresh_token'') = JUndefined \<longrightarrow> r = JNull) \<and>
                 (\<forall>x. getProperty response (str ''refresh_token'') = JString x \<longrightarrow> r = JString x))) \<and>
         ((\<forall>s. getProperty response (str ''user_id'') \<noteq> JString s) \<or>
          (\<forall>t. getProperty response (str ''access_token'') \<noteq> JString t) \<longrightarrow>
            (\<exists>e. fst (authenticate F oa c l) = Inl e)) \<and>
         (\<not> isNullish response \<and> (\<forall>s. getProperty response (str ''user_id'') \<noteq> JString s) \<longrightarrow>
            fst (authenticate F oa c l) = Inl (Error (str ''Expected a user id in the response''))) \<and>
         ((\<exists>s. getProperty response (str ''user_id'') = JString s) \<and>
          (\<forall>t. getProperty response (str ''access_token'') \<noteq> JString t) \<longrightarrow>
            fst (authenticate F oa c l) =
              Inl (Error (str ''Expected an access token in the response''))) \<and>
         (isNullish response \<longrightarrow> fst (authenticate F oa c l) = Inl TypeError)"
proof -
  have eq: "fst (authenticate F oa c l) = spread response"
    using authenticate_posted [OF assms(1)] assms(2) by simp
  have n: "getProperty response k = JString s \<Longrightarrow> \<not> isNullish response" for k s
    by (cases response) (simp_all add: isNullish_def)
  show ?thesis
    unfolding eq
    apply (intro conjI allI impI)
    subgoal for s t
      using n [of "str ''user_id''" s]
      by (auto simp: spread_def Let_def split: jsval.splits)
    subgoal
      by (auto simp: spread_def Let_def split: jsval.splits)
    subgoal
      by (auto simp: spread_def Let_def split: jsval.splits)
    subgoal
      using n [of "str ''user_id''"]
      by (auto simp: spread_def Let_def split: jsval.splits)
    subgoal
      by (simp add: spread_def)
    done
qed

theorem authenticate_validates_response_witness:
  "snd (authenticate (example_fetcher (JObject [(str ''user_id'', JString (str ''u1'')),
                                                (str ''access_token'', JString (str ''tok''))]))
          example_oauth2 userpass_credentials None) =
     [GetAppUrl,
      FetchJSON (loginRequest (str ''https://x/local-userpass/login'') userpass_credentials None)] \<and>
   fst (authenticate (example_fetcher (JObject [(str ''user_id'', JString (str ''u1'')),
                                                (str ''access_token'', JString (str ''tok''))]))
          example_oauth2 userpass_credentials None) =
     Inr \<lparr>userId = str ''u1'', accessToken = str ''tok'', refreshToken = JNull\<rparr> \<and>
   fst (authenticate (example_fetcher (JObject [(str ''access_token'', JString (str ''tok''))]))
          example_oauth2 userpass_credentials None) =
     Inl (Error (str ''Expected a user id in the response'')) \<and>
   fst (authenticate (example_fetcher (JObject [(str ''user_id'', JString (str ''u1''))]))
          example_oauth2 userpass_credentials None) =
     Inl (Error (str ''Expected an access token in the response''))"
proof -
  let ?q = "loginRequest (str ''https://x/local-userpass/login'') userpass_credentials None"
  have n: "\<not> (startsWith (providerType userpass_credentials) (str ''oauth2'') \<and>
              (\<exists>s. map_of (payload userpass_credentials) (str ''redirectUrl'') = Some (JString s)))"
    by (simp add: userpass_credentials_def startsWith_def str_def)
  have u: "str ''https://x/'' @ providerName userpass_credentials @ str ''/login'' =
           str ''https://x/local-userpass/login''"
    by (simp add: userpass_credentials_def str_def)
  have calls: "snd (authenticate (example_fetcher v) example_oauth2 userpass_credentials None) =
                 [GetAppUrl, FetchJSON ?q]" for v
    by (simp add: authenticate_direct [OF n] example_fetcher_def Let_def u)
  have answer: "fetchJSON (example_fetcher v) ?q = Inr v" for v
    by (simp add: example_fetcher_def)
  note w = authenticate_validates_response [OF calls answer]
  have 1: "fst (authenticate (example_fetcher (JObject [(str ''user_id'', JString (str ''u1'')),
                                                (str ''access_token'', JString (str ''tok''))]))
          example_oauth2 userpass_credentials None) =
     Inr \<lparr>userId = str ''u1'', accessToken = str ''tok'', refreshToken = JNull\<rparr>"
    using w [of "JObject [(str ''user_id'', JString (str ''u1'')),
                          (str ''access_token'', JString (str ''tok''))]"]
    by (auto simp: str_def)
  have 2: "fst (authenticate (example_fetcher (JObject [(str ''access_token'', JString (str ''tok''))]))
          example_oauth2 userpass_credentials None) =
     Inl (Error (str ''Expected a user id in the response''))"
    using w [of "JObject [(str ''access_token'', JString (str ''tok''))]"]
    by (simp add: isNullish_def str_def)
  have 3: "fst (authenticate (example_fetcher (JObject [(str ''user_id'', JString (str ''u1''))]))
          example_oauth2 userpass_credentials None) =
     Inl (Error (str ''Expected an access token in the response''))"
    using w [of "JObject [(str ''user_id'', JString (str ''u1''))]"]
    by (simp add: str_def)
  show ?thesis using calls 1 2 3 by blast
qed

text \<open>
  Without the amendment the statement fails: a login response whose \<open>user_id\<close> is the
  empty string passes both checks, and the session returned has an empty \<open>userId\<close>.
\<close>

theorem authenticate_accepts_empty_user_id:
  "fst (authenticate (example_fetcher (JObject [(str ''user_id'', JString []),
                                                (str ''access_token'', JString (str ''tok''))]))
          example_oauth2 userpass_credentials None) =
     Inr \<lparr>userId = [], accessToken = str ''tok'', refreshToken = JNull\<rparr>"
proof -
  have n: "\<not> (startsWith (providerType userpass_credentials) (str ''oauth2'') \<and>
              (\<exists>s. map_of (payload userpass_credentials) (str ''redirectUrl'') = Some (JString s)))"
    by (simp add: userpass_credentials_def startsWith_def str_def)
  show ?thesis
    by (simp add: authenticate_direct [OF n] example_fetcher_def Let_def spread_def
        isNullish_def) (simp add: str_def)
qed

subsection \<open>Authenticator: the login request\<close>

text \<open>
  Claim C8. On the direct path, once the app URL is known, the request that is posted
  has the provider's login URL followed by \<open>?link=true\<close> when \<open>linkWithUser\<close> is
  supplied and the login URL unchanged when it is not; its token type is \<open>access\<close> when
  \<open>linkWithUser\<close> is supplied and \<open>none\<close> otherwise. Its body is the payload of the
  credentials.
\<close>

theorem authenticate_login_request:
  assumes "\<not> (startsWith (providerType c) (str ''oauth2'') \<and>
            (\<exists>s. map_of (payload c) (str ''redirectUrl'') = Some (JString s)))"
    and "getAppUrl F = Inr appUrl"
  shows "snd (authenticate F oa c l) =
     [GetAppUrl,
      FetchJSON \<lparr>method' = str ''POST'',
                 url = (if l = None then appUrl (providerName c)
                        else appUrl (providerName c) @ str ''?link=true''),
                 body = JObject (payload c), timeoutMs = None, headers = None,
                 tokenType = (if l = None then str ''none'' else str ''access''),
                 user = l\<rparr>]"
  unfolding authenticate_direct [OF assms(1)]
  by (simp add: assms(2) Let_def loginRequest_def)

theorem authenticate_login_request_witness:
  "\<not> startsWith (providerType userpass_credentials) (str ''oauth2'') \<and>
   snd (authenticate (example_fetcher JNull) example_oauth2 userpass_credentials
          (Some (User (str ''u0'')))) =
     [GetAppUrl,
      FetchJSON \<lparr>method' = str ''POST'', url = str ''https://x/local-userpass/login?link=true'',
                 body = JObject (payload userpass_credentials), timeoutMs = None, headers = None,
                 tokenType = str ''access'', user = Some (User (str ''u0''))\<rparr>] \<and>
   snd (authenticate (example_fetcher JNull) example_oauth2 userpass_credentials None) =
     [GetAppUrl,
      FetchJSON \<lparr>method' = str ''POST'', url = str ''https://x/local-userpass/login'',
                 body = JObject (payload userpass_credentials), timeoutMs = None, headers = None,
                 tokenType = str ''none'', user = None\<rparr>]"
proof -
  have h: "\<not> startsWith (providerType userpass_credentials) (str ''oauth2'')"
    by (simp add: userpass_credentials_def startsWith_def str_def)
  then have n: "\<not> (startsWith (providerType userpass_credentials) (str ''oauth2'') \<and>
              (\<exists>s. map_of (payload userpass_credentials) (str ''redirectUrl'') = Some (JString s)))"
    by simp
  have g: "getAppUrl (example_fetcher JNull) = Inr (\<lambda>name. str ''https://x/'' @ name @ str ''/login'')"
    by (simp add: example_fetcher_def)
  show ?thesis
    using h authenticate_login_request [OF n g, of example_oauth2 "Some (User (str ''u0''))"]
      authenticate_login_request [OF n g, of example_oauth2 None]
    by (simp add: userpass_credentials_def str_def)
qed

subsection \<open>Transport: classification of the response\<close>

text \<open>
  Claim C3, amended. When the underlying call of a request settles with a response whose
  status is not a success, whose \<open>content-type\<close> header starts with
  \<open>application/json\<close> and whose body parses as JSON, \<open>fetchAndParse\<close> rejects with the
  API error that carries the method and the URL of the request and the status code, the
  status text and the parsed body of the response.
\<close>

theorem fetchAndParse_api_error:
  assumes "fetch P req w = (Inr r, w')"
    and "\<not> ok r"
    and "headers_get (res_headers r) (str ''content-type'') = Some ct"
    and "startsWith ct (str ''application/json'')"
    and "json_of r = Inr parsed"
  shows "fetchAndParse P req w =
           (Inl (MongoDBRealmError (method' req) (url req) (status r) (statusText r) parsed), w')"
  using assms startsWith_nonempty [of ct]
  by (simp add: fetchAndParse_def classify_def)

theorem fetchAndParse_api_error_witness:
  "fetch (example_platform (Inr response_401)) (example_request None) example_world =
     (Inr response_401, example_world) \<and>
   \<not> ok response_401 \<and>
   headers_get (res_headers response_401) (str ''content-type'') = Some (str ''application/json'') \<and>
   startsWith (str ''application/json'') (str ''application/json'') \<and>
   json_of response_401 = Inr (JObject [(str ''error'', JString (str ''invalid session''))]) \<and>
   fetchAndParse (example_platform (Inr response_401)) (example_request None) example_world =
     (Inl (MongoDBRealmError (str ''GET'') (str ''https://x/y'') (Num (str ''401''))
             (str ''Unauthorized'') (JObject [(str ''error'', JString (str ''invalid session''))])),
      example_world)"
proof -
  have 1: "fetch (example_platform (Inr response_401)) (example_request None) example_world =
     (Inr response_401, example_world)"
    by (simp add: fetch_def createTimeoutSignal_def example_request_def example_platform_def
        run_cancelTimeout_def)
  have 2: "\<not> ok response_401" by (simp add: response_401_def)
  have 3: "headers_get (res_headers response_401) (str ''content-type'') =
             Some (str ''application/json'')"
    by (simp add: response_401_def headers_get_def)
  have 4: "startsWith (str ''application/json'') (str ''application/json'')"
    by (simp add: startsWith_def)
  have 5: "json_of response_401 = Inr (JObject [(str ''error'', JString (str ''invalid session''))])"
    by (simp add: response_401_def)
  from fetchAndParse_api_error [OF 1 2 3 4 5] 1 2 3 4 5 show ?thesis
    by (simp add: example_request_def response_401_def)
qed

text \<open>
  Without the amendment the statement fails: a response of status 400 announces JSON and
  its body does not parse; \<open>response.json()\<close> rejects inside the \<open>try\<close> block, and
  \<open>fetchAndParse\<close> rejects with the wrapped error of the parser, which is not an API
  error and carries neither the status nor a payload.
\<close>

theorem fetchAndParse_malformed_error_body:
  "\<not> ok response_400_malformed \<and>
   headers_get (res_headers response_400_malformed) (str ''content-type'') =
     Some (str ''application/json'') \<and>
   startsWith (str ''application/json'') (str ''application/json'') \<and>
   fetch (example_platform (Inr response_400_malformed)) (example_request None) example_world =
     (Inr response_400_malformed, example_world) \<and>
   fetchAndParse (example_platform (Inr response_400_malformed)) (example_request None)
     example_world =
     (Inl (Error (str ''Request failed (GET https://x/y): Unexpected end of JSON input'')),
      example_world)"
proof -
  have 1: "fetch (example_platform (Inr response_400_malformed)) (example_request None)
             example_world = (Inr response_400_malformed, example_world)"
    by (simp add: fetch_def createTimeoutSignal_def example_request_def example_platform_def
        run_cancelTimeout_def)
  have 2: "\<not> ok response_400_malformed"
    by (simp add: response_400_malformed_def)
  have 3: "headers_get (res_headers response_400_malformed) (str ''content-type'') =
     Some (str ''application/json'')"
    by (simp add: response_400_malformed_def headers_get_def)
  have 4: "startsWith (str ''application/json'') (str ''application/json'')"
    by (simp add: startsWith_def)
  have 5: "json_of response_400_malformed = Inl (Error (str ''Unexpected end of JSON input''))"
    by (simp add: response_400_malformed_def)
  have 6: "classify (example_request None) (Inr response_400_malformed) =
             Inl (Error (str ''Unexpected end of JSON input''))"
    using 2 3 4 5 startsWith_nonempty [OF 4] by (simp add: classify_def)
  have 7: "fetchAndParse (example_platform (Inr response_400_malformed)) (example_request None)
     example_world =
     (Inl (Error (str ''Request failed (GET https://x/y): Unexpected end of JSON input'')),
      example_world)"
    by (simp add: fetchAndParse_def 1 6) (simp add: example_request_def str_def)
  show ?thesis using 1 2 3 4 7 by blast
qed

text \<open>
  Claim C6. When the underlying call settles with a response whose status is a success
  and which has no \<open>content-type\<close> header, \<open>fetchAndParse\<close> resolves with \<open>null\<close>; it
  does not throw.
\<close>

theorem fetchAndParse_empty_success:
  assumes "fetch P req w = (Inr r, w')"
    and "ok r"
    and "headers_get (res_headers r) (str ''content-type'') = None"
  shows "fetchAndParse P req w = (Inr JNull, w')"
  using assms by (simp add: fetchAndParse_def classify_def)

theorem fetchAndParse_empty_success_witness:
  "fetch (example_platform (Inr response_204)) (example_request None) example_world =
     (Inr response_204, example_world) \<and>
   ok response_204 \<and>
   headers_get (res_headers response_204) (str ''content-type'') = None \<and>
   fetchAndParse (example_platform (Inr response_204)) (example_request None) example_world =
     (Inr JNull, example_world)"
proof -
  have 1: "fetch (example_platform (Inr response_204)) (example_request None) example_world =
     (Inr response_204, example_world)"
    by (simp add: fetch_def createTimeoutSignal_def example_request_def example_platform_def
        run_cancelTimeout_def)
  have 2: "ok response_204" by (simp add: response_204_def)
  have 3: "headers_get (res_headers response_204) (str ''content-type'') = None"
    by (simp add: response_204_def headers_get_def str_def)
  from fetchAndParse_empty_success [OF 1 2 3] 1 2 3 show ?thesis by simp
qed

subsection \<open>Transport: the catch block\<close>




subsection \<open>Transport: the timeout\<close>

text \<open>
  Claim C5. If \<open>timeoutMs\<close> of the request is a number, \<open>fetchAndParse\<close> constructs one
  new abort controller and arms one new timer, whose delay is \<open>timeoutMs\<close> and whose
  callback aborts that controller; the signal of the controller is passed to the
  underlying call, and whatever the call settles with, the timer is cleared afterwards
  and is not pending when \<open>fetchAndParse\<close> settles. If \<open>timeoutMs\<close> is absent, no
  controller is constructed, no timer is armed, no signal is passed, and nothing is
  cleared.
\<close>

theorem fetchAndParse_releases_timer:
  "(timeoutMs req = Some ms \<longrightarrow>
      (\<exists>w1. createTimeoutSignal (timeoutMs req) w =
                (\<lparr>signal = Some (controllers w), cancelTimeout = Some (timeouts w)\<rparr>, w1) \<and>
            controllers w1 = Suc (controllers w) \<and>
            (timeouts w, ms, controllers w) \<in> set (pending w1) \<and>
            snd (fetchAndParse P req w) =
              clearTimeout (timeouts w)
                (snd (fetch_impl P (url req) (fetch_init P req (Some (controllers w))) w1))) \<and>
      timeouts w \<notin> (\<lambda>(t, d, c). t) ` set (pending (snd (fetchAndParse P req w)))) \<and>
   (timeoutMs req = None \<longrightarrow>
      createTimeoutSignal (timeoutMs req) w = (\<lparr>signal = None, cancelTimeout = None\<rparr>, w) \<and>
      snd (fetchAndParse P req w) = snd (fetch_impl P (url req) (fetch_init P req None) w))"
proof (intro conjI impI)
  assume t: "timeoutMs req = Some ms"
  define w1 where "w1 = w\<lparr>controllers := Suc (controllers w), timeouts := Suc (timeouts w),
    pending := pending w @ [(timeouts w, ms, controllers w)]\<rparr>"
  have c: "createTimeoutSignal (timeoutMs req) w =
     (\<lparr>signal = Some (controllers w), cancelTimeout = Some (timeouts w)\<rparr>, w1)"
    by (simp add: t createTimeoutSignal_def newAbortController_def setTimeout_def w1_def)
  have s: "snd (fetchAndParse P req w) =
              clearTimeout (timeouts w)
                (snd (fetch_impl P (url req) (fetch_init P req (Some (controllers w))) w1))"
    by (simp add: fetchAndParse_def fetch_def c run_cancelTimeout_def split: prod.splits sum.splits)
  show "\<exists>w1. createTimeoutSignal (timeoutMs req) w =
                (\<lparr>signal = Some (controllers w), cancelTimeout = Some (timeouts w)\<rparr>, w1) \<and>
            controllers w1 = Suc (controllers w) \<and>
            (timeouts w, ms, controllers w) \<in> set (pending w1) \<and>
            snd (fetchAndParse P req w) =
              clearTimeout (timeouts w)
                (snd (fetch_impl P (url req) (fetch_init P req (Some (controllers w))) w1))"
    using c s by (intro exI [of _ w1]) (simp add: w1_def)
  show "timeouts w \<notin> (\<lambda>(t, d, c). t) ` set (pending (snd (fetchAndParse P req w)))"
    unfolding s by (auto simp: clearTimeout_def)
next
  assume t: "timeoutMs req = None"
  show "createTimeoutSignal (timeoutMs req) w = (\<lparr>signal = None, cancelTimeout = None\<rparr>, w)"
    by (simp add: t createTimeoutSignal_def)
  then show "snd (fetchAndParse P req w) = snd (fetch_impl P (url req) (fetch_init P req None) w)"
    by (simp add: fetchAndParse_def fetch_def run_cancelTimeout_def split: prod.splits sum.splits)
qed

theorem fetchAndParse_releases_timer_witness:
  "timeoutMs (example_request (Some (Num (str ''5000'')))) = Some (Num (str ''5000'')) \<and>
   createTimeoutSignal (Some (Num (str ''5000''))) example_world =
     (\<lparr>signal = Some 0, cancelTimeout = Some 0\<rparr>,
      \<lparr>controllers = 1, timeouts = 1, pending = [(0, Num (str ''5000''), 0)]\<rparr>) \<and>
   snd (fetchAndParse (example_platform (Inr response_401))
          (example_request (Some (Num (str ''5000'')))) example_world) =
     \<lparr>controllers = 1, timeouts = 1, pending = []\<rparr> \<and>
   snd (fetchAndParse (example_platform (Inl (Error (str ''Failed to fetch''))))
          (example_request (Some (Num (str ''5000'')))) example_world) =
     \<lparr>controllers = 1, timeouts = 1, pending = []\<rparr> \<and>
   timeoutMs (example_request None) = None \<and>
   snd (fetchAndParse (example_platform (Inr response_401)) (example_request None) example_world) =
     example_world"
proof -
  have 1: "timeoutMs (example_request (Some (Num (str ''5000'')))) = Some (Num (str ''5000''))"
    and 2: "timeoutMs (example_request None) = None"
    by (simp_all add: example_request_def)
  have 3: "createTimeoutSignal (Some (Num (str ''5000''))) example_world =
     (\<lparr>signal = Some 0, cancelTimeout = Some 0\<rparr>,
      \<lparr>controllers = 1, timeouts = 1, pending = [(0, Num (str ''5000''), 0)]\<rparr>)"
    by (simp add: createTimeoutSignal_def newAbortController_def setTimeout_def example_world_def)
  from fetchAndParse_releases_timer [of "example_request (Some (Num (str ''5000'')))"
      "Num (str ''5000'')" example_world "example_platform (Inr response_401)"]
    fetchAndParse_releases_timer [of "example_request (Some (Num (str ''5000'')))"
      "Num (str ''5000'')" example_world "example_platform (Inl (Error (str ''Failed to fetch'')))"]
    fetchAndParse_releases_timer [of "example_request None" "Num (str ''5000'')" example_world
      "example_platform (Inr response_401)"]
    1 2 3
  show ?thesis
    by (auto simp: example_platform_def clearTimeout_def example_world_def)
qed

subsection \<open>Transport: the callback variant\<close>

text \<open>
  Claim C7, amended. Whatever the status of the response with which the underlying call
  settles, if its body text can be read, \<open>fetchWithCallbacks\<close> calls \<open>handler.onSuccess\<close>
  once, with the status code, the text of the body and the object that maps every header
  name to its (last) value. \<open>handler.onError\<close> is called with an exception exactly when
  the underlying call fails with it, or reading the body text fails with it, or
  \<open>handler.onSuccess\<close> was called and threw it.
\<close>

theorem fetchWithCallbacks_invocations:
  "(fetch P req w = (Inr r, w') \<and> text_of r = Inr b \<longrightarrow>
      (\<exists>H. map_of H = map_of (rev (res_headers r)) \<and>
           fst (fetchWithCallbacks P req h w) =
             OnSuccess \<lparr>statusCode = status r, raw_headers = H, raw_body = b\<rparr> #
             (case onSuccess h \<lparr>statusCode = status r, raw_headers = H, raw_body = b\<rparr> of
                None \<Rightarrow> []
              | Some e \<Rightarrow> [OnError e]))) \<and>
   (OnError e \<in> set (fst (fetchWithCallbacks P req h w)) \<longleftrightarrow>
      fst (fetch P req w) = Inl e \<or>
      (\<exists>r. fst (fetch P req w) = Inr r \<and> text_of r = Inl e) \<or>
      (\<exists>x. OnSuccess x \<in> set (fst (fetchWithCallbacks P req h w)) \<and> onSuccess h x = Some e))"
proof (intro conjI impI)
  assume a: "fetch P req w = (Inr r, w') \<and> text_of r = Inr b"
  define H where "H = fold (\<lambda>(key, value) responseHeaders.
                                               AList.update key value responseHeaders)
                                         (res_headers r) []"
  have "map_of H = map_of (rev (res_headers r))"
    by (simp add: H_def map_of_fold_update)
  moreover have "fst (fetchWithCallbacks P req h w) =
             OnSuccess \<lparr>statusCode = status r, raw_headers = H, raw_body = b\<rparr> #
             (case onSuccess h \<lparr>statusCode = status r, raw_headers = H, raw_body = b\<rparr> of
                None \<Rightarrow> []
              | Some e \<Rightarrow> [OnError e])"
    using a by (simp add: fetchWithCallbacks_def H_def Let_def split: option.splits)
  ultimately show "\<exists>H. map_of H = map_of (rev (res_headers r)) \<and>
           fst (fetchWithCallbacks P req h w) =
             OnSuccess \<lparr>statusCode = status r, raw_headers = H, raw_body = b\<rparr> #
             (case onSuccess h \<lparr>statusCode = status r, raw_headers = H, raw_body = b\<rparr> of
                None \<Rightarrow> []
              | Some e \<Rightarrow> [OnError e])"
    by blast
next
  show "OnError e \<in> set (fst (fetchWithCallbacks P req h w)) \<longleftrightarrow>
      fst (fetch P req w) = Inl e \<or>
      (\<exists>r. fst (fetch P req w) = Inr r \<and> text_of r = Inl e) \<or>
      (\<exists>x. OnSuccess x \<in> set (fst (fetchWithCallbacks P req h w)) \<and> onSuccess h x = Some e)"
    by (cases "fetch P req w")
      (auto simp: fetchWithCallbacks_def Let_def split: sum.splits option.splits)
qed

theorem fetchWithCallbacks_invocations_witness:
  "fetch (example_platform (Inr response_401)) (example_request None) example_world =
     (Inr response_401, example_world) \<and>
   text_of response_401 = Inr (str ''{}'') \<and>
   fst (fetchWithCallbacks (example_platform (Inr response_401)) (example_request None)
          quiet_handler example_world) =
     [OnSuccess \<lparr>statusCode = Num (str ''401''),
                 raw_headers = [(str ''content-type'', str ''application/json'')],
                 raw_body = str ''{}''\<rparr>] \<and>
   fst (fetchWithCallbacks (example_platform (Inl (Error (str ''Failed to fetch''))))
          (example_request None) quiet_handler example_world) =
     [OnError (Error (str ''Failed to fetch''))]"
proof -
  have 1: "fetch (example_platform outcome) (example_request None) example_world =
     (outcome, example_world)" for outcome
    by (simp add: fetch_def createTimeoutSignal_def example_request_def example_platform_def
        run_cancelTimeout_def)
  have 2: "text_of response_401 = Inr (str ''{}'')" by (simp add: response_401_def)
  have 3: "fst (fetchWithCallbacks (example_platform (Inr response_401)) (example_request None)
          quiet_handler example_world) =
     [OnSuccess \<lparr>statusCode = Num (str ''401''),
                 raw_headers = [(str ''content-type'', str ''application/json'')],
                 raw_body = str ''{}''\<rparr>]"
    using fetchWithCallbacks_invocations [of "example_platform (Inr response_401)"
        "example_request None" example_world response_401 example_world "str ''{}''" quiet_handler]
      1 2
    by (simp add: fetchWithCallbacks_def quiet_handler_def response_401_def)
  have 4: "fst (fetchWithCallbacks (example_platform (Inl (Error (str ''Failed to fetch''))))
          (example_request None) quiet_handler example_world) =
     [OnError (Error (str ''Failed to fetch''))]"
    by (simp add: fetchWithCallbacks_def 1)
  show ?thesis using 1 2 3 4 by simp
qed

text \<open>
  Without the amendment the statement fails: the underlying call succeeds, the handler's
  \<open>onSuccess\<close> throws, and \<open>onError\<close> is called although the call itself did not fail.
\<close>

theorem fetchWithCallbacks_onError_after_onSuccess:
  "fst (fetch (example_platform (Inr response_204)) (example_request None) example_world) =
     Inr response_204 \<and>
   fst (fetchWithCallbacks (example_platform (Inr response_204)) (example_request None)
          throwing_handler example_world) =
     [OnSuccess \<lparr>statusCode = Num (str ''204''),
                 raw_headers = [(str ''x-a'', str ''1''), (str ''x-b'', str ''2'')],
                 raw_body = []\<rparr>,
      OnError (Error (str ''boom''))]"
proof -
  have 1: "fetch (example_platform (Inr response_204)) (example_request None) example_world =
     (Inr response_204, example_world)"
    by (simp add: fetch_def createTimeoutSignal_def example_request_def example_platform_def
        run_cancelTimeout_def)
  have 2: "fst (fetchWithCallbacks (example_platform (Inr response_204)) (example_request None)
          throwing_handler example_world) =
     [OnSuccess \<lparr>statusCode = Num (str ''204''),
                 raw_headers = [(str ''x-a'', str ''1''), (str ''x-b'', str ''2'')],
                 raw_body = []\<rparr>,
      OnError (Error (str ''boom''))]"
    by (simp add: fetchWithCallbacks_def 1)
      (simp add: throwing_handler_def response_204_def str_def)
  show ?thesis using 1 2 by simp
qed

subsection \<open>Query strings\<close>

text \<open>
  Claim C9, amended. For every non-empty list of entries with distinct keys, none of
  whose values is \<open>undefined\<close>, whose keys contain neither \<open>&\<close> nor \<open>=\<close>, and whose
  values, converted to strings, contain no unpaired surrogate: \<open>encodeQueryString\<close>
  returns a string, and \<open>decodeQueryString\<close> of that string returns the same keys, in
  order, each with its value converted to a string.
\<close>

theorem decodeQueryString_encodeQueryString:
  assumes ne: "params \<noteq> []"
    and dist: "distinct (map fst params)"
    and ok: "\<forall>(k, v) \<in> set params.
               v \<noteq> SUndefined \<and> isWellFormed (ToString v) \<and> 0x26 \<notin> set k \<and> 0x3D \<notin> set k"
  shows "\<exists>q. encodeQueryString params = Inr q \<and>
             decodeQueryString q = Inr (map (\<lambda>(k, v). (k, ToString v)) params)"
proof -
  define enc where "enc v = the (Encode (ToString v))" for v
  have enc: "Encode (ToString v) = Some (enc v)" if "(k, v) \<in> set params" for k v
    using that ok Encode_isWellFormed [of "ToString v"] by (auto simp: enc_def)
  have filt: "filter (\<lambda>(k, v). v \<noteq> SUndefined) params = params"
    using ok by (auto simp: filter_id_conv)
  have m1: "mapM (\<lambda>(k, v). case encodeURIComponent v of Inl e \<Rightarrow> Inl e | Inr v' \<Rightarrow> Inr (k, v')) params
            = Inr (map (\<lambda>(k, v). (k, enc v)) params)"
    by (rule mapM_Inr) (auto simp: encodeURIComponent_def enc)
  define comps where "comps = map (\<lambda>(k, v). k @ str ''='' @ enc v) params"
  define q where "q = join comps (str ''&'')"
  have q: "encodeQueryString params = Inr q"
    unfolding encodeQueryString_def Let_def filt m1
    by (simp add: q_def comps_def comp_def case_prod_unfold)
  have plain: "0x26 \<notin> set (enc v) \<and> 0x3D \<notin> set (enc v)" if "(k, v) \<in> set params" for k v
    using Encode_plain [OF enc [OF that]] .
  have "comps \<noteq> []" using ne by (simp add: comps_def)
  moreover have "\<forall>x \<in> set comps. 0x26 \<notin> set x"
    using ok plain by (auto simp: comps_def str_eq)
  ultimately have sp: "split q 0x26 = comps"
    by (simp add: q_def str_amp split_join)
  have m2: "mapM (\<lambda>kvp. case destructure2 (split kvp 0x3D) of
                          (k, v) \<Rightarrow> (case decodeURIComponent v of
                                       Inl e \<Rightarrow> Inl e
                                     | Inr v' \<Rightarrow> Inr (ToString k, v'))) comps
            = Inr (map (\<lambda>(k, v). (k, ToString v)) params)"
  proof -
    have "(case destructure2 (split (k @ str ''='' @ enc v) 0x3D) of
             (k, v) \<Rightarrow> (case decodeURIComponent v of
                          Inl e \<Rightarrow> Inl e
                        | Inr v' \<Rightarrow> Inr (ToString k, v'))) = Inr (k, ToString v)"
      if "(k, v) \<in> set params" for k v
    proof -
      from that ok have "0x3D \<notin> set k" by auto
      moreover from plain [OF that] have "0x3D \<notin> set (enc v)" by simp
      ultimately show ?thesis
        using Decode_Encode [OF enc [OF that]]
        by (simp add: split_key_value decodeURIComponent_def)
    qed
    then show ?thesis
      unfolding comps_def mapM_map by (intro mapM_Inr) auto
  qed
  have "distinct (map fst (map (\<lambda>(k, v). (k, ToString v)) params))"
    using dist by (simp add: comp_def case_prod_unfold)
  then show ?thesis
    using q by (simp add: decodeQueryString_def sp m2 fromEntries_distinct)
qed

theorem decodeQueryString_encodeQueryString_witness:
  "example_params \<noteq> [] \<and> distinct (map fst example_params) \<and>
   list_all (\<lambda>(k, v). v \<noteq> SUndefined \<and> isWellFormed (ToString v) \<and>
                       0x26 \<notin> set k \<and> 0x3D \<notin> set k) example_params \<and>
   encodeQueryString example_params = Inr (str ''a=x%20y&n=1.5&c=true'') \<and>
   decodeQueryString (str ''a=x%20y&n=1.5&c=true'') =
     Inr [(str ''a'', str ''x y''), (str ''n'', str ''1.5''), (str ''c'', str ''true'')]"
proof -
  have 1: "example_params \<noteq> []" by (simp add: example_params_def)
  have 2: "distinct (map fst example_params)" by (simp add: example_params_def str_def)
  have 3: "\<forall>(k, v) \<in> set example_params.
      v \<noteq> SUndefined \<and> isWellFormed (ToString v) \<and> 0x26 \<notin> set k \<and> 0x3D \<notin> set k"
    by (simp add: example_params_def str_def isLeadingSurrogate_def isTrailingSurrogate_def)
  have 4: "encodeQueryString example_params = Inr (str ''a=x%20y&n=1.5&c=true'')"
    by (simp add: example_params_def encodeQueryString_def encodeURIComponent_def str_def
        uriUnescaped_def isLeadingSurrogate_def isTrailingSurrogate_def utf8_encode_def
        percentEscape_def hexDigit_def)
  from 3 have 5: "list_all (\<lambda>(k, v). v \<noteq> SUndefined \<and> isWellFormed (ToString v) \<and>
                       0x26 \<notin> set k \<and> 0x3D \<notin> set k) example_params"
    by (simp add: list_all_iff)
  from decodeQueryString_encodeQueryString [OF 1 2 3] 4
  have "decodeQueryString (str ''a=x%20y&n=1.5&c=true'') =
     Inr [(str ''a'', str ''x y''), (str ''n'', str ''1.5''), (str ''c'', str ''true'')]"
    by (simp add: example_params_def)
  with 1 2 4 5 show ?thesis by blast
qed

text \<open>
  Without the amendment the statement fails: the empty mapping is encoded as the empty
  string, which is decoded as the mapping with the one entry of key \<open>""\<close> and value
  \<open>"undefined"\<close>.
\<close>

theorem decodeQueryString_encodeQueryString_empty:
  "encodeQueryString [] = Inr [] \<and> decodeQueryString [] = Inr [([], str ''undefined'')]"
  by (simp add: encodeQueryString_def decodeQueryString_def decodeURIComponent_def
      Decode_undefined fromEntries_def)

text \<open>
  Claim C10, amended. When \<open>decodeQueryString\<close> returns a mapping for a string, a
  component of the string between ampersands that contains no \<open>=\<close>, and whose text is
  not the key of a later component, is a key of the mapping, and its value is the string
  \<open>undefined\<close>, of nine characters. In particular, \<open>decodeQueryString("")\<close> is the mapping
  with the one entry of key \<open>""\<close> and value \<open>"undefined"\<close>.
\<close>

theorem decodeQueryString_component_without_equals:
  "(decodeQueryString s = Inr obj \<and> split s 0x26 = pre @ part # post \<and> 0x3D \<notin> set part \<and>
      (\<forall>kvp \<in> set post. takeWhile (\<lambda>c. c \<noteq> 0x3D) kvp \<noteq> part)
      \<longrightarrow> map_of obj part = Some (str ''undefined'')) \<and>
   length (str ''undefined'') = 9 \<and>
   decodeQueryString (str '''') = Inr [(str '''', str ''undefined'')]"
proof (intro conjI impI)
  define g where "g = (\<lambda>kvp. case destructure2 (split kvp 0x3D) of
                          (k, v) \<Rightarrow> (case decodeURIComponent v of
                                       Inl e \<Rightarrow> Inl e
                                     | Inr v' \<Rightarrow> Inr (ToString k, v')))"
  assume a: "decodeQueryString s = Inr obj \<and> split s 0x26 = pre @ part # post \<and> 0x3D \<notin> set part \<and>
      (\<forall>kvp \<in> set post. takeWhile (\<lambda>c. c \<noteq> 0x3D) kvp \<noteq> part)"
  then obtain entries where e: "mapM g (split s 0x26) = Inr entries" "obj = fromEntries entries"
    by (auto simp: decodeQueryString_def g_def split: sum.splits)
  from mapM_InrD [OF e(1)] a have m: "map g pre @ g part # map g post = map Inr entries"
    by simp
  then obtain e1 y e2 where s: "entries = e1 @ y # e2" "map g pre = map Inr e1" "g part = Inr y"
    "map g post = map Inr e2"
    by (auto simp: append_eq_map_conv Cons_eq_map_conv)
  from a s(3) have y: "y = (part, str ''undefined'')"
    using entry_without_equals [of part] by (simp add: g_def)
  have "part \<notin> fst ` set e2"
  proof
    assume "part \<in> fst ` set e2"
    then obtain z where z: "z \<in> set e2" "fst z = part" by auto
    then have "Inr z \<in> set (map g post)" by (simp add: s(4))
    then obtain kvp where k: "kvp \<in> set post" "g kvp = Inr z" by auto
    from entry_key [OF k(2) [unfolded g_def]] z(2) a k(1) show False by auto
  qed
  then have "map_of (rev e2) part = None"
    by (simp add: map_of_eq_None_iff)
  then show "map_of obj part = Some (str ''undefined'')"
    by (simp add: e(2) map_of_fromEntries s(1) y map_add_def)
next
  show "length (str ''undefined'') = 9" by (simp add: str_def)
next
  show "decodeQueryString (str '''') = Inr [(str '''', str ''undefined'')]"
    by (simp add: decodeQueryString_def decodeURIComponent_def Decode_undefined fromEntries_def
        str_def [of "[]"])
qed

theorem decodeQueryString_component_without_equals_witness:
  "decodeQueryString (str ''a=1&b'') = Inr [(str ''a'', str ''1''), (str ''b'', str ''undefined'')] \<and>
   split (str ''a=1&b'') 0x26 = [str ''a=1''] @ str ''b'' # [] \<and> 0x3D \<notin> set (str ''b'') \<and>
   map_of [(str ''a'', str ''1''), (str ''b'', str ''undefined'')] (str ''b'') = Some (str ''undefined'')"
proof -
  have 1: "decodeQueryString (str ''a=1&b'') =
             Inr [(str ''a'', str ''1''), (str ''b'', str ''undefined'')]"
    by (simp add: decodeQueryString_def str_def decodeURIComponent_def fromEntries_def)
  have 2: "split (str ''a=1&b'') 0x26 = [str ''a=1''] @ str ''b'' # []"
    by (simp add: str_def)
  have 3: "0x3D \<notin> set (str ''b'')" by (simp add: str_def)
  have 4: "\<forall>kvp \<in> set []. takeWhile (\<lambda>c. c \<noteq> 0x3D) kvp \<noteq> str ''b''" by simp
  from decodeQueryString_component_without_equals
         [of "str ''a=1&b''" "[(str ''a'', str ''1''), (str ''b'', str ''undefined'')]"
             "[str ''a=1'']" "str ''b''" "[]"]
    1 2 3 4
  show ?thesis by blast
qed

text \<open>
  Without the amendment the statement fails: in \<open>a&a=1\<close> the component \<open>a\<close> has no
  \<open>=\<close>, and the mapping returned has \<open>a\<close> mapped to \<open>1\<close>; in \<open>a&b=%\<close> the component
  \<open>a\<close> has no \<open>=\<close>, and \<open>decodeQueryString\<close> throws; and \<open>undefined\<close> has nine
  characters, not six.
\<close>

theorem decodeQueryString_later_key_wins:
  "decodeQueryString (str ''a&a=1'') = Inr [(str ''a'', str ''1'')] \<and>
   decodeQueryString (str ''a&b=%'') = Inl URIError \<and>
   length (str ''undefined'') \<noteq> 6"
  by (simp add: decodeQueryString_def str_def decodeURIComponent_def fromEntries_def)

end
